theory Spec2Isabelle
  imports Main "HOL-Library.AList" "HOL-Library.List_Lexorder" "HOL-Library.Char_ord"
begin

section \<open>JavaScript strings, as far as converter.js uses them\<close>

text \<open>
  Strings are lists of bytes.  The helpers below follow the JavaScript
  built-ins on ASCII text: white space is the six ASCII white-space
  characters, letter case is ASCII letter case, and the default
  \<^verbatim>\<open>Array.prototype.sort\<close> on strings is the lexicographic order on
  character codes.
\<close>

definition is_ws :: "char \<Rightarrow> bool" where
  "is_ws c = (c = CHR '' '' \<or> c = CHR 0x09 \<or> c = CHR 0x0A \<or> c = CHR 0x0B
      \<or> c = CHR 0x0C \<or> c = CHR 0x0D)"

text \<open>\<^verbatim>\<open>s.trim()\<close>\<close>

definition trim :: "string \<Rightarrow> string" where
  "trim s = rev (dropWhile is_ws (rev (dropWhile is_ws s)))"

text \<open>\<^verbatim>\<open>xs.join(sep)\<close>\<close>

fun join :: "string \<Rightarrow> string list \<Rightarrow> string" where
  "join sep [] = []"
| "join sep [x] = x"
| "join sep (x # y # ys) = x @ sep @ join sep (y # ys)"

text \<open>\<^verbatim>\<open>s.split(c)\<close> for a one-character separator: the empty string
  splits into one empty piece.\<close>

fun split_acc :: "char \<Rightarrow> string \<Rightarrow> string \<Rightarrow> string list" where
  "split_acc sep acc [] = [acc]"
| "split_acc sep acc (c # cs) =
     (if c = sep then acc # split_acc sep [] cs else split_acc sep (acc @ [c]) cs)"

definition split_char :: "char \<Rightarrow> string \<Rightarrow> string list" where
  "split_char sep s = split_acc sep [] s"

text \<open>Splitting on a regular expression \<^verbatim>\<open>[...]+\<close>: a run of
  separator characters is one separator, and a separator at either end leaves
  an empty piece there.\<close>

function split_runs :: "(char \<Rightarrow> bool) \<Rightarrow> string \<Rightarrow> string \<Rightarrow> string list" where
  "split_runs sep acc [] = [acc]"
| "split_runs sep acc (c # cs) =
     (if sep c then acc # split_runs sep [] (dropWhile sep cs)
      else split_runs sep (acc @ [c]) cs)"
  by pat_completeness auto
termination
  by (relation "measure (\<lambda>(sep, acc, s). length s)")
     (auto simp: length_dropWhile_le less_Suc_eq_le)

text \<open>\<^verbatim>\<open>s.split(/\s+/)\<close>\<close>

definition split_ws :: "string \<Rightarrow> string list" where
  "split_ws s = split_runs is_ws [] s"

text \<open>Decimal digits of a number, as template literals print an index.\<close>

definition digit_char :: "nat \<Rightarrow> char" where
  "digit_char d = ''0123456789'' ! d"

fun show_nat :: "nat \<Rightarrow> string" where
  "show_nat n =
     (if n < 10 then [digit_char n] else show_nat (n div 10) @ [digit_char (n mod 10)])"

declare show_nat.simps [simp del]

section \<open>The tree model\<close>

text \<open>
  A node of the parsed tree, as \<^verbatim>\<open>index.js\<close> writes it and
  \<^verbatim>\<open>converter.js\<close> reads it: \<^verbatim>\<open>type\<close>, \<^verbatim>\<open>name\<close>,
  \<^verbatim>\<open>attribs\<close> (an object of string values, as the parser gives them, kept
  as an association list in key order), \<^verbatim>\<open>children\<close> and
  \<^verbatim>\<open>data\<close>.  A field a node kind
  does not carry is the empty string or the empty list; the converter reads
  every such field through \<^verbatim>\<open>|| []\<close>, \<^verbatim>\<open>|| {}\<close> or \<^verbatim>\<open>?.\<close>,
  so absent and empty behave alike.  The registries of the converter are keyed
  by object identity; \<open>nid\<close> is that identity.
\<close>

datatype node =
  Node (nid: nat) (ntype: string) (nname: string)
       (attribs: "(string \<times> string) list") (children: "node list") (ndata: string)


section \<open>Structural signature\<close>

definition classAttr :: "(string \<times> string) list \<Rightarrow> string" where
  "classAttr as =
     (case map_of as ''class'' of
        None \<Rightarrow> ''''
      | Some c \<Rightarrow> if c = '''' then '''' else ''_CLASS_'' @ join ''_'' (sort (split_ws c)))"

definition is_element_type :: "string \<Rightarrow> bool" where
  "is_element_type t = (t = ''tag'' \<or> t = ''script'' \<or> t = ''style'')"

definition is_leaf_type :: "string \<Rightarrow> bool" where
  "is_leaf_type t = (t = ''text'' \<or> t = ''comment'' \<or> t = ''directive'')"

fun getStructuralSignature :: "node \<Rightarrow> string" where
  "getStructuralSignature (Node i t nm as cs d) =
     (if is_leaf_type t then t
      else if is_element_type t then
        nm @ ''['' @ join '','' (sort (map fst as)) @ classAttr as @ '']('' @
          join ''|'' (map getStructuralSignature cs) @ '')''
      else ''UNKNOWN_TYPE_'' @ t)"





section \<open>Paths and property access\<close>

text \<open>
  A path is the array \<^verbatim>\<open>collectPaths\<close> builds: the strings
  \<^verbatim>\<open>'children'\<close>, \<^verbatim>\<open>'attribs'\<close> and attribute keys, and child
  indices.  Maps keyed by a path use \<^verbatim>\<open>path.join('.')\<close>.
\<close>

datatype seg = SKey string | SIdx nat

fun seg_str :: "seg \<Rightarrow> string" where
  "seg_str (SKey k) = k"
| "seg_str (SIdx i) = show_nat i"

definition pathStr :: "seg list \<Rightarrow> string" where
  "pathStr p = join ''.'' (map seg_str p)"

text \<open>
  The values a walk along a path passes through: a node, a \<^verbatim>\<open>children\<close>
  array, an \<^verbatim>\<open>attribs\<close> object, a string, or \<^verbatim>\<open>undefined\<close>.
  \<open>js_index x p\<close> is \<^verbatim>\<open>x[p]\<close>.  Reads that no path of
  \<^verbatim>\<open>collectPaths\<close> performs (a node's scalar fields, \<^verbatim>\<open>length\<close>,
  inherited properties) are \<^verbatim>\<open>undefined\<close> here.
\<close>

datatype jsv = VNode node | VNodes "node list" | VAttribs "(string \<times> string) list"
  | VStr string | VUndef

fun js_index :: "jsv \<Rightarrow> seg \<Rightarrow> jsv" where
  "js_index (VNode n) (SKey k) =
     (if k = ''children'' then VNodes (children n)
      else if k = ''attribs'' then VAttribs (attribs n)
      else VUndef)"
| "js_index (VNodes ns) (SIdx i) = (if i < length ns then VNode (ns ! i) else VUndef)"
| "js_index (VAttribs as) (SKey k) = (case map_of as k of Some v \<Rightarrow> VStr v | None \<Rightarrow> VUndef)"
| "js_index (VStr s) (SIdx i) = (if i < length s then VStr [s ! i] else VUndef)"
| "js_index x p = VUndef"

fun truthy :: "jsv \<Rightarrow> bool" where
  "truthy VUndef = False"
| "truthy (VStr s) = (s \<noteq> [])"
| "truthy x = True"

text \<open>\<^verbatim>\<open>path.forEach((p) => { if (x) x = x[p]; })\<close>\<close>

definition walk :: "jsv \<Rightarrow> seg list \<Rightarrow> jsv" where
  "walk x path = fold (\<lambda>p x. if truthy x then js_index x p else x) path x"

text \<open>\<^verbatim>\<open>path.forEach((p) => (x = x?.[p]))\<close>\<close>

definition walk_opt :: "jsv \<Rightarrow> seg list \<Rightarrow> jsv" where
  "walk_opt x path = fold (\<lambda>p x. if x = VUndef then VUndef else js_index x p) path x"

section \<open>Configuration and external functions\<close>

text \<open>
  What \<^verbatim>\<open>converter.js\<close> takes from outside: the constants it reads from
  \<^verbatim>\<open>config.json\<close> (\<open>svgsDir\<close> is \<^verbatim>\<open>pathConfig.svgs\<close>,
  \<open>componentsDir\<close> is \<^verbatim>\<open>pathConfig.components\<close>, \<open>svgsOutputDir\<close> is
  \<^verbatim>\<open>SVGS_OUTPUT_DIR\<close>), the MD5 hex digest of \<^verbatim>\<open>crypto\<close>,
  \<^verbatim>\<open>render(node, { xmlMode: true })\<close> of \<^verbatim>\<open>dom-serializer\<close> and
  \<^verbatim>\<open>path.join\<close>.  The three functions are parameters; nothing is
  assumed of them.
\<close>

record env =
  md5hex :: "string \<Rightarrow> string"
  serialize :: "node \<Rightarrow> string"
  selfClosingTags :: "string list"
  layoutIdentifiers :: "string list"
  minChildrenForRepetition :: nat
  minRepetitionsForComponent :: nat
  svgsDir :: string
  componentsDir :: string
  svgsOutputDir :: string
  path_join :: "string \<Rightarrow> string \<Rightarrow> string"

section \<open>Prop inference\<close>

datatype propType = Svg | Attribute | TextChild | ChildrenT

record propInfo =
  ptype :: propType
  ppath :: "seg list"
  pvalues :: "string list"

type_synonym propsSpec = "(string \<times> propInfo) list"

text \<open>\<^verbatim>\<open>collectPaths(node, currentPath, callback)\<close>: the calls of the
  callback, in order.\<close>

fun collectPaths :: "env \<Rightarrow> node \<Rightarrow> seg list \<Rightarrow> (seg list \<times> string \<times> propType) list"
  and collectChildren :: "env \<Rightarrow> node list \<Rightarrow> nat \<Rightarrow> seg list \<Rightarrow> (seg list \<times> string \<times> propType) list"
where
  "collectPaths E (Node n t nm as cs d) currentPath =
     (if t = ''tag'' \<and> nm = ''svg'' then [(currentPath, serialize E (Node n t nm as cs d), Svg)]
      else map (\<lambda>(attrKey, v). (currentPath @ [SKey ''attribs'', SKey attrKey], v, Attribute)) as
         @ collectChildren E cs 0 currentPath)"
| "collectChildren E [] i currentPath = []"
| "collectChildren E (child # cs) i currentPath =
     (let childPath = currentPath @ [SKey ''children'', SIdx i] in
        (if ntype child = ''text'' \<and> trim (ndata child) \<noteq> []
           then [(childPath, trim (ndata child), TextChild)]
         else if ntype child = ''tag'' then collectPaths E child childPath
         else [])
        @ collectChildren E cs (Suc i) currentPath)"

text \<open>A JavaScript \<^verbatim>\<open>Map\<close> or plain object is an association list in
  insertion order (\<open>AList.update\<close> overwrites in place or appends); a
  \<^verbatim>\<open>Set\<close> is a list without repetitions.\<close>

definition set_add :: "'a \<Rightarrow> 'a list \<Rightarrow> 'a list" where
  "set_add v xs = (if v \<in> set xs then xs else xs @ [v])"

definition templateValuesByPath :: "env \<Rightarrow> node \<Rightarrow> (string \<times> string \<times> propType) list" where
  "templateValuesByPath E templateNode =
     fold (\<lambda>(path, v, ty) m. AList.update (pathStr path) (v, ty) m)
       (collectPaths E templateNode []) []"

text \<open>The callback of the second \<^verbatim>\<open>collectPaths\<close> call, on one value of an
  instance.\<close>

definition note_difference ::
  "(string \<times> string \<times> propType) list \<Rightarrow> seg list \<times> string \<times> propType \<Rightarrow>
   (string \<times> propInfo) list \<Rightarrow> (string \<times> propInfo) list" where
  "note_difference tv = (\<lambda>(path, v, ty) dm.
     (let key = pathStr path; templateInfo = map_of tv key in
      if templateInfo = None \<or> v \<noteq> fst (the templateInfo) then
        (let dm1 = (if map_of dm key = None
                    then AList.update key \<lparr>ptype = ty, ppath = path, pvalues = []\<rparr> dm else dm);
             dm2 = AList.map_entry key (\<lambda>e. e\<lparr>pvalues := set_add v (pvalues e)\<rparr>) dm1
         in (case templateInfo of
               None \<Rightarrow> dm2
             | Some ti \<Rightarrow> AList.map_entry key (\<lambda>e. e\<lparr>pvalues := set_add (fst ti) (pvalues e)\<rparr>) dm2))
      else dm))"

definition differingPaths :: "env \<Rightarrow> node \<Rightarrow> node list \<Rightarrow> (string \<times> propInfo) list" where
  "differingPaths E templateNode instances =
     (let tv = templateValuesByPath E templateNode in
      fold (\<lambda>instance dm.
              if nid instance = nid templateNode then dm
              else fold (note_difference tv) (collectPaths E instance []) dm)
        instances [])"

subsection \<open>Naming helpers\<close>

definition lower_letters :: string where
  "lower_letters = ''abcdefghijklmnopqrstuvwxyz''"

definition upper_letters :: string where
  "upper_letters = ''ABCDEFGHIJKLMNOPQRSTUVWXYZ''"

definition is_lower :: "char \<Rightarrow> bool" where
  "is_lower c = (c \<in> set lower_letters)"

definition is_upper :: "char \<Rightarrow> bool" where
  "is_upper c = (c \<in> set upper_letters)"

definition is_digit :: "char \<Rightarrow> bool" where
  "is_digit c = (c \<in> set ''0123456789'')"

definition is_alnum :: "char \<Rightarrow> bool" where
  "is_alnum c = (is_lower c \<or> is_upper c \<or> is_digit c)"

definition to_upper :: "char \<Rightarrow> char" where
  "to_upper c = (case map_of (zip lower_letters upper_letters) c of Some u \<Rightarrow> u | None \<Rightarrow> c)"

definition to_lower :: "char \<Rightarrow> char" where
  "to_lower c = (case map_of (zip upper_letters lower_letters) c of Some l \<Rightarrow> l | None \<Rightarrow> c)"

text \<open>\<^verbatim>\<open>s.startsWith(p)\<close> and \<^verbatim>\<open>s.includes(sub)\<close>\<close>

fun starts_with :: "string \<Rightarrow> string \<Rightarrow> bool" where
  "starts_with s [] = True"
| "starts_with [] (p # ps) = False"
| "starts_with (c # cs) (p # ps) = (c = p \<and> starts_with cs ps)"

fun str_includes :: "string \<Rightarrow> string \<Rightarrow> bool" where
  "str_includes [] sub = (sub = [])"
| "str_includes (c # cs) sub = (starts_with (c # cs) sub \<or> str_includes cs sub)"

text \<open>\<^verbatim>\<open>str.replace(/-([a-z])/g, (g) => g[1].toUpperCase())\<close>\<close>

fun kebabToCamelCase :: "string \<Rightarrow> string" where
  "kebabToCamelCase (a # b # cs) =
     (if a = CHR ''-'' \<and> is_lower b then to_upper b # kebabToCamelCase cs
      else a # kebabToCamelCase (b # cs))"
| "kebabToCamelCase cs = cs"

text \<open>\<^verbatim>\<open>str.replace(/[-_ ]+([a-zA-Z0-9])/g, (_, char) => char.toUpperCase())\<close>\<close>

definition is_camel_sep :: "char \<Rightarrow> bool" where
  "is_camel_sep c = (c = CHR ''-'' \<or> c = CHR ''_'' \<or> c = CHR '' '')"

function camel_words :: "string \<Rightarrow> string" where
  "camel_words [] = []"
| "camel_words (c # cs) =
     (if is_camel_sep c then
        (case dropWhile is_camel_sep cs of
           [] \<Rightarrow> c # takeWhile is_camel_sep cs
         | d # ds \<Rightarrow>
             if is_alnum d then to_upper d # camel_words ds
             else (c # takeWhile is_camel_sep cs) @ camel_words (d # ds))
      else c # camel_words cs)"
  by pat_completeness auto
termination
proof (relation "measure length", goal_cases)
  case 1
  show ?case by simp
next
  case (2 c cs d ds)
  have "length (dropWhile is_camel_sep cs) \<le> length cs" by (rule length_dropWhile_le)
  with 2 show ?case by simp
next
  case (3 c cs d ds)
  have "length (dropWhile is_camel_sep cs) \<le> length cs" by (rule length_dropWhile_le)
  with 3 show ?case by simp
next
  case (4 c cs)
  show ?case by simp
qed

text \<open>\<^verbatim>\<open>toCamelCase\<close>: the second replacement,
  \<^verbatim>\<open>.replace(/^[A-Z]/, (m) => m.toLowerCase())\<close>, lowers a leading capital.\<close>

definition toCamelCase :: "string \<Rightarrow> string" where
  "toCamelCase str =
     (case camel_words str of
        [] \<Rightarrow> []
      | c # cs \<Rightarrow> (if is_upper c then to_lower c else c) # cs)"

definition capitalize_word :: "string \<Rightarrow> string" where
  "capitalize_word w = (case w of [] \<Rightarrow> [] | c # cs \<Rightarrow> to_upper c # map to_lower cs)"

text \<open>\<^verbatim>\<open>toPascalCase\<close>, on a string (every caller passes one).\<close>

definition toPascalCase :: "string \<Rightarrow> string" where
  "toPascalCase s =
     (if trim s = [] then ''Unnamed''
      else
        (let cleaned = filter (\<lambda>c. is_lower c \<or> is_digit c) (map to_lower s) in
         case cleaned of
           c # cs \<Rightarrow> to_upper c # cs
         | [] \<Rightarrow>
            (let kept = filter (\<lambda>c. is_alnum c \<or> c = CHR ''_'' \<or> c = CHR ''-'' \<or> is_ws c) s;
                 fallbackWords = filter (\<lambda>w. w \<noteq> [])
                    (split_runs (\<lambda>c. is_ws c \<or> c = CHR ''_'' \<or> c = CHR ''-'') [] kept)
             in if fallbackWords \<noteq> [] then concat (map capitalize_word fallbackWords)
                else ''UnnamedComponent'')))"

definition role_of :: "string \<Rightarrow> string option" where
  "role_of lowered =
     (if str_includes lowered ''title'' then Some ''title''
      else if str_includes lowered ''label'' then Some ''label''
      else if str_includes lowered ''desc'' then Some ''description''
      else if str_includes lowered ''header'' then Some ''header''
      else if str_includes lowered ''footer'' then Some ''footer''
      else if str_includes lowered ''button'' then Some ''buttonText''
      else if str_includes lowered ''caption'' then Some ''caption''
      else if str_includes lowered ''subtitle'' then Some ''subtitle''
      else if str_includes lowered ''item'' then Some ''itemText''
      else None)"

fun first_role :: "string list \<Rightarrow> string option" where
  "first_role [] = None"
| "first_role (str # rest) =
     (if str = [] then first_role rest
      else (case role_of (map to_lower str) of
              Some r \<Rightarrow> Some r
            | None \<Rightarrow> first_role rest))"

definition guessTextRoleFromClassOrId :: "node \<Rightarrow> string option" where
  "guessTextRoleFromClassOrId n =
     first_role
       ((case map_of (attribs n) ''id'' of Some i \<Rightarrow> [i] | None \<Rightarrow> []) @
        (case map_of (attribs n) ''class'' of Some c \<Rightarrow> split_ws c | None \<Rightarrow> []))"

subsection \<open>Fresh prop names\<close>

lemma digit_char_inj: "d < 10 \<Longrightarrow> e < 10 \<Longrightarrow> digit_char d = digit_char e \<Longrightarrow> d = e"
proof -
  assume "d < 10" "e < 10" and eq: "digit_char d = digit_char e"
  have dist: "distinct ''0123456789''" by simp
  have "length ''0123456789'' = 10" by simp
  with \<open>d < 10\<close> \<open>e < 10\<close> eq dist show ?thesis
    unfolding digit_char_def by (metis nth_eq_iff_index_eq)
qed

lemma show_nat_nonempty: "show_nat n \<noteq> []"
  by (subst show_nat.simps) simp

lemma show_nat_inj: "show_nat m = show_nat n \<Longrightarrow> m = n"
proof (induction m arbitrary: n rule: show_nat.induct)
  case (1 m)
  show ?case
  proof (cases "m < 10")
    case True
    then have m: "show_nat m = [digit_char m]" by (subst show_nat.simps) simp
    show ?thesis
    proof (cases "n < 10")
      case n: True
      then have "show_nat n = [digit_char n]" by (subst show_nat.simps) simp
      with m "1.prems" True n show ?thesis by (simp add: digit_char_inj)
    next
      case n: False
      then have "show_nat n = show_nat (n div 10) @ [digit_char (n mod 10)]"
        by (subst show_nat.simps) simp
      with m "1.prems" show ?thesis using show_nat_nonempty[of "n div 10"] by auto
    qed
  next
    case False
    then have m: "show_nat m = show_nat (m div 10) @ [digit_char (m mod 10)]"
      by (subst show_nat.simps) simp
    show ?thesis
    proof (cases "n < 10")
      case n: True
      then have "show_nat n = [digit_char n]" by (subst show_nat.simps) simp
      with m "1.prems" show ?thesis using show_nat_nonempty[of "m div 10"] by auto
    next
      case n: False
      then have "show_nat n = show_nat (n div 10) @ [digit_char (n mod 10)]"
        by (subst show_nat.simps) simp
      with m "1.prems" have a: "show_nat (m div 10) = show_nat (n div 10)"
        and b: "digit_char (m mod 10) = digit_char (n mod 10)" by simp_all
      from "1.IH"[OF False a] have "m div 10 = n div 10" .
      moreover from b have "m mod 10 = n mod 10" by (simp add: digit_char_inj)
      ultimately show ?thesis by (metis div_mult_mod_eq)
    qed
  qed
qed

lemma finite_suffixed: "finite {k. base @ show_nat k \<in> set existing}"
proof -
  have "inj (\<lambda>k. base @ show_nat k)" by (auto simp: inj_on_def dest: show_nat_inj)
  then have "finite ((\<lambda>k. base @ show_nat k) -` set existing)"
    by (intro finite_vimageI) simp_all
  then show ?thesis by (simp add: vimage_def)
qed

text \<open>
  \<^verbatim>\<open>generatePropName(base, existingProps)\<close>: the loop
  \<^verbatim>\<open>while (existingProps.has(propName)) propName = `${base}${count++}`\<close>.
  It ends because the candidates \<open>base1\<close>, \<open>base2\<close>, \<dots> are pairwise
  different and the set is finite.
\<close>

function gen_loop :: "string \<Rightarrow> string list \<Rightarrow> nat \<Rightarrow> string \<Rightarrow> string" where
  "gen_loop base existingProps count propName =
     (if propName \<in> set existingProps
      then gen_loop base existingProps (Suc count) (base @ show_nat count)
      else propName)"
  by pat_completeness auto
termination
proof (relation "measure (\<lambda>(base, existing, count, propName).
          card {k. count \<le> k \<and> base @ show_nat k \<in> set existing}
          + (if propName \<in> set existing then 1 else 0))", goal_cases)
  case 1
  show ?case by simp
next
  case (2 base existing count propName)
  let ?S = "\<lambda>c. {k. c \<le> k \<and> base @ show_nat k \<in> set existing}"
  have fin: "finite (?S count)"
    by (rule finite_subset[OF _ finite_suffixed[of base existing]]) auto
  show ?case
  proof (cases "base @ show_nat count \<in> set existing")
    case True
    have "?S count = insert count (?S (Suc count))" using True by (auto simp: le_Suc_eq)
    moreover have "count \<notin> ?S (Suc count)" by simp
    moreover have "finite (?S (Suc count))" by (rule finite_subset[OF _ fin]) auto
    ultimately have "card (?S count) = Suc (card (?S (Suc count)))" by simp
    with 2 True show ?thesis by simp
  next
    case False
    have "?S count = ?S (Suc count)" using False
      by (auto simp: Suc_le_eq) (metis le_neq_implies_less)
    with 2 False show ?thesis by simp
  qed
qed

declare gen_loop.simps [simp del]

definition generatePropName :: "string \<Rightarrow> string list \<Rightarrow> string" where
  "generatePropName base existingProps = gen_loop base existingProps 1 base"

subsection \<open>\<^verbatim>\<open>analyzeInstancesForProps\<close>\<close>

text \<open>
  The base name of one differing path, with the counter after it.  \<open>None\<close>
  is the \<^verbatim>\<open>TypeError\<close> the source raises: for a text path whose parent
  element the template does not have, \<^verbatim>\<open>guessTextRoleFromClassOrId\<close> reads
  \<^verbatim>\<open>node.attribs\<close> of \<^verbatim>\<open>undefined\<close>; for an attribute path without a
  string key, \<^verbatim>\<open>kebabToCamelCase\<close> calls \<^verbatim>\<open>replace\<close> on a non-string.
\<close>

definition deriveBasePropName :: "node \<Rightarrow> nat \<Rightarrow> propInfo \<Rightarrow> (string \<times> nat) option" where
  "deriveBasePropName templateNode propCounter dp =
     (case ptype dp of
        Svg \<Rightarrow> Some (''iconSrc'', propCounter)
      | Attribute \<Rightarrow>
          (if ppath dp = [] then None
           else (case last (ppath dp) of
                   SIdx i \<Rightarrow> None
                 | SKey attrKey \<Rightarrow>
                     Some (kebabToCamelCase
                        (if attrKey = ''class'' then ''className''
                         else if attrKey = ''for'' then ''htmlFor'' else attrKey), propCounter)))
      | TextChild \<Rightarrow>
          (case walk_opt (VNode templateNode) (butlast (butlast (ppath dp))) of
             VUndef \<Rightarrow> None
           | VNode parentNode \<Rightarrow>
               (case guessTextRoleFromClassOrId parentNode of
                  Some role \<Rightarrow> Some (role, propCounter)
                | None \<Rightarrow>
                    if nname parentNode \<noteq> [] then Some (toCamelCase (nname parentNode @ ''Text''), propCounter)
                    else Some (''text'' @ show_nat propCounter, Suc propCounter))
           | other \<Rightarrow> Some (''text'' @ show_nat propCounter, Suc propCounter))
      | ChildrenT \<Rightarrow> Some (''prop'' @ show_nat propCounter, Suc propCounter))"

text \<open>\<^verbatim>\<open>differingPaths.forEach(...)\<close>, carrying \<^verbatim>\<open>propCounter\<close>,
  \<^verbatim>\<open>existingPropNames\<close> and \<^verbatim>\<open>propsSpec\<close>.\<close>

fun name_props ::
  "node \<Rightarrow> (string \<times> propInfo) list \<Rightarrow> nat \<Rightarrow> string list \<Rightarrow> propsSpec \<Rightarrow>
   (string list \<times> propsSpec) option" where
  "name_props templateNode [] propCounter existingPropNames propsSpec =
     Some (existingPropNames, propsSpec)"
| "name_props templateNode ((key, dp) # rest) propCounter existingPropNames propsSpec =
     (case deriveBasePropName templateNode propCounter dp of
        None \<Rightarrow> None
      | Some (basePropName, propCounter') \<Rightarrow>
          (let finalPropName = generatePropName basePropName existingPropNames in
           name_props templateNode rest propCounter' (set_add finalPropName existingPropNames)
             (AList.update finalPropName dp propsSpec)))"

definition childrenSignature :: "node \<Rightarrow> string" where
  "childrenSignature n = join ''|'' (map getStructuralSignature (children n))"

definition analyzeInstancesForProps :: "env \<Rightarrow> node \<Rightarrow> node list \<Rightarrow> propsSpec option" where
  "analyzeInstancesForProps E templateNode instances =
     (case name_props templateNode (differingPaths E templateNode instances) 0 [] [] of
        None \<Rightarrow> None
      | Some (existingPropNames, propsSpec) \<Rightarrow>
          Some (if list_ex (\<lambda>inst. childrenSignature inst \<noteq> childrenSignature templateNode) instances
                   \<and> \<not> list_ex (\<lambda>(n, p). ptype p = ChildrenT) propsSpec
                then AList.update (generatePropName ''children'' existingPropNames)
                       \<lparr>ptype = ChildrenT, ppath = [SKey ''children''], pvalues = []\<rparr> propsSpec
                else propsSpec))"

section \<open>Code generation\<close>

subsection \<open>JSON and style strings\<close>

definition dq :: char where "dq = CHR 0x22"
definition sq :: char where "sq = CHR 0x27"
definition bslash :: char where "bslash = CHR 0x5C"

definition hex_digit :: "nat \<Rightarrow> char" where
  "hex_digit d = ''0123456789abcdef'' ! d"

text \<open>\<^verbatim>\<open>JSON.stringify\<close> of a string.\<close>

definition json_escape :: "char \<Rightarrow> string" where
  "json_escape c =
     (if c = dq then [bslash, dq]
      else if c = bslash then [bslash, bslash]
      else if c = CHR 0x08 then [bslash, CHR ''b'']
      else if c = CHR 0x0C then [bslash, CHR ''f'']
      else if c = CHR 0x0A then [bslash, CHR ''n'']
      else if c = CHR 0x0D then [bslash, CHR ''r'']
      else if c = CHR 0x09 then [bslash, CHR ''t'']
      else if (of_char c :: nat) < 32 then
        [bslash, CHR ''u'', CHR ''0'', CHR ''0'',
         hex_digit ((of_char c :: nat) div 16), hex_digit ((of_char c :: nat) mod 16)]
      else [c])"

definition json_string :: "string \<Rightarrow> string" where
  "json_string s = dq # concat (map json_escape s) @ [dq]"

text \<open>\<^verbatim>\<open>JSON.stringify\<close> of an array of strings, and of an object whose
  values are strings.\<close>

definition json_array :: "string list \<Rightarrow> string" where
  "json_array xs = ''['' @ join '','' (map json_string xs) @ '']''"

definition json_object :: "(string \<times> string) list \<Rightarrow> string" where
  "json_object kvs =
     ''{'' @ join '','' (map (\<lambda>(k, v). json_string k @ '':'' @ json_string v) kvs) @ ''}''"

definition style_declaration :: "string \<Rightarrow> (string \<times> string) list \<Rightarrow> (string \<times> string) list" where
  "style_declaration declaration style =
     (case split_char (CHR '':'') declaration of
        property # v # rest \<Rightarrow>
          if property \<noteq> [] \<and> v \<noteq> []
          then AList.update (kebabToCamelCase (trim property)) (trim v) style else style
      | other \<Rightarrow> style)"

definition styleStringToObject :: "string \<Rightarrow> (string \<times> string) list" where
  "styleStringToObject styleString =
     (if styleString = [] then []
      else fold style_declaration (split_char (CHR '';'') styleString) [])"

subsection \<open>Effects, registry\<close>

text \<open>What rendering does besides returning text: it asks for a file to be
  written (\<^verbatim>\<open>fs.writeFile(path, content)\<close>, not awaited) and it logs.\<close>

datatype effect = WriteFile string string | ConsoleWarn string | ConsoleLog string

record compInfo =
  cname :: string
  cAstNode :: nat
  cPropsSpec :: propsSpec

text \<open>\<^verbatim>\<open>localComponentRegistry\<close>: a \<^verbatim>\<open>Map\<close> from node identity.\<close>

type_synonym registry = "nat \<Rightarrow> compInfo option"

subsection \<open>Icons\<close>

text \<open>
  \<^verbatim>\<open>attribs.viewBox = attribs.viewbox; delete attribs.viewbox\<close>, when
  \<^verbatim>\<open>attribs.viewbox\<close> is a non-empty string.  The source renames in place.
  The rename changes nothing when done again, and the renderer reads the
  attributes of an \<^verbatim>\<open>svg\<close> element only after it; detection and inference
  of a tree are over before its first render.  So the model applies the rename
  where the source reads the object.
\<close>

definition normalizeViewBox :: "node \<Rightarrow> node" where
  "normalizeViewBox n =
     (case map_of (attribs n) ''viewbox'' of
        None \<Rightarrow> n
      | Some v \<Rightarrow>
          if v = [] then n
          else Node (nid n) (ntype n) (nname n)
                 (AList.delete ''viewbox'' (AList.update ''viewBox'' v (attribs n)))
                 (children n) (ndata n))"

definition svgFilename :: "env \<Rightarrow> string \<Rightarrow> string" where
  "svgFilename E svgString = ''icon-'' @ md5hex E svgString @ ''.svg''"

definition writeSvg :: "env \<Rightarrow> string \<Rightarrow> effect" where
  "writeSvg E svgString = WriteFile (path_join E (svgsOutputDir E) (svgFilename E svgString)) svgString"

definition replace_char :: "char \<Rightarrow> string \<Rightarrow> string \<Rightarrow> string" where
  "replace_char c r s = concat (map (\<lambda>x. if x = c then r else [x]) s)"

definition altText :: "node \<Rightarrow> string" where
  "altText n =
     (case find (\<lambda>child. ntype child = ''tag'' \<and> nname child = ''title'') (children n) of
        None \<Rightarrow> ''icon''
      | Some titleNode \<Rightarrow>
          (case children titleNode of
             [] \<Rightarrow> ''icon''
           | c # cs \<Rightarrow> if ntype c = ''text'' then trim (ndata c) else ''icon''))"

definition imgTag :: "string \<Rightarrow> string \<Rightarrow> string" where
  "imgTag src alt = ''<img src='' @ src @ '' alt='' @ [dq] @ replace_char dq [bslash, dq] alt @ [dq] @ '' />''"

subsection \<open>Call sites\<close>

text \<open>\<^verbatim>\<open>String(value)\<close> for the values a walk can end in.\<close>

fun js_String :: "jsv \<Rightarrow> string" where
  "js_String (VStr s) = s"
| "js_String VUndef = ''undefined''"
| "js_String (VNodes ns) = join '','' (map (\<lambda>n. ''[object Object]'') ns)"
| "js_String x = ''[object Object]''"

text \<open>
  The value one prop of a registered node receives, with the writes it causes;
  \<open>None\<close> is the \<^verbatim>\<open>continue\<close> of a children prop.  An icon path ends in
  a node or in \<^verbatim>\<open>undefined\<close>; where a walk ended elsewhere the source
  would hand an array or a string to the serializer, which the model does not
  follow: it yields the empty reference.
\<close>

definition valueToPass :: "env \<Rightarrow> node \<Rightarrow> propInfo \<Rightarrow> (jsv \<times> effect list) option" where
  "valueToPass E node spec =
     (case ptype spec of
        Svg \<Rightarrow>
          (case walk (VNode node) (ppath spec) of
             VNode svgNode \<Rightarrow>
               (let svgString = serialize E (normalizeViewBox svgNode) in
                Some (VStr (''/'' @ svgsDir E @ ''/'' @ svgFilename E svgString), [writeSvg E svgString]))
           | other \<Rightarrow> Some (VStr [], []))
      | Attribute \<Rightarrow> Some (walk (VNode node) (ppath spec), [])
      | TextChild \<Rightarrow>
          (case walk (VNode node) (ppath spec) of
             VNode textNode \<Rightarrow> Some (VStr (trim (ndata textNode)), [])
           | other \<Rightarrow> Some (VStr [], []))
      | ChildrenT \<Rightarrow> None)"

text \<open>\<^verbatim>\<open>instanceProps\<close>, filled in the order of the spec.\<close>

fun instanceProps :: "env \<Rightarrow> node \<Rightarrow> propsSpec \<Rightarrow> (string \<times> jsv) list \<Rightarrow> (string \<times> jsv) list \<times> effect list" where
  "instanceProps E node [] acc = (acc, [])"
| "instanceProps E node ((propName, spec) # rest) acc =
     (case valueToPass E node spec of
        None \<Rightarrow> instanceProps E node rest acc
      | Some (v, effs) \<Rightarrow>
          (let (acc', effs') = instanceProps E node rest (AList.update propName v acc)
           in (acc', effs @ effs')))"

definition propString :: "string \<times> jsv \<Rightarrow> string" where
  "propString = (\<lambda>(key, v).
     (case v of
        VUndef \<Rightarrow> []
      | VStr s \<Rightarrow>
          (let jsxPropName = kebabToCamelCase key in
           if jsxPropName = ''style''
           then '' '' @ jsxPropName @ ''={'' @ json_object (styleStringToObject s) @ ''}''
           else '' '' @ jsxPropName @ ''={'' @ json_string s @ ''}'')
      | other \<Rightarrow> '' '' @ kebabToCamelCase key @ ''={'' @ json_string (js_String other) @ ''}''))"

definition callSite :: "compInfo \<Rightarrow> (string \<times> jsv) list \<Rightarrow> string \<Rightarrow> string" where
  "callSite compInfo props childrenJsx =
     (let propsString = concat (map propString props) in
      if trim childrenJsx \<noteq> []
      then ''<'' @ cname compInfo @ propsString @ ''>'' @ childrenJsx @ ''</'' @ cname compInfo @ ''>''
      else ''<'' @ cname compInfo @ propsString @ '' />'')"

subsection \<open>Text, comments, attributes\<close>

definition findProp :: "(propInfo \<Rightarrow> bool) \<Rightarrow> propsSpec \<Rightarrow> string option" where
  "findProp P spec = map_option fst (find (\<lambda>(propName, p). P p) spec)"

definition renderText :: "bool \<Rightarrow> propsSpec \<Rightarrow> seg list \<Rightarrow> string \<Rightarrow> string" where
  "renderText isComponentDefinitionBody componentPropsSpec nodePath d =
     (case (if isComponentDefinitionBody
            then findProp (\<lambda>p. ptype p = TextChild \<and> pathStr (ppath p) = pathStr nodePath)
                   componentPropsSpec
            else None) of
        Some propName \<Rightarrow>
          ''{'' @ propName @ '' || '' @ [sq] @ replace_char sq [bslash, sq] (trim d) @ [sq] @ ''}''
      | None \<Rightarrow>
          if trim d = [] then (if d \<noteq> [] \<and> \<not> isComponentDefinitionBody then d else [])
          else replace_char (CHR ''}'') ([CHR ''{'', dq, CHR ''}'', dq, CHR ''}''])
                 (replace_char (CHR ''{'') ([CHR ''{'', dq, CHR ''{'', dq, CHR ''}'']) d))"

text \<open>\<^verbatim>\<open>data.replace(/\*\//g, '*\\/')\<close>\<close>

fun escape_comment_end :: "string \<Rightarrow> string" where
  "escape_comment_end (a # b # cs) =
     (if a = CHR ''*'' \<and> b = CHR ''/'' then [CHR ''*'', bslash, CHR ''/''] @ escape_comment_end cs
      else a # escape_comment_end (b # cs))"
| "escape_comment_end cs = cs"

definition renderComment :: "string \<Rightarrow> string" where
  "renderComment d = ''{/*'' @ escape_comment_end d @ ''*/}''"

definition booleanAttributes :: "string list" where
  "booleanAttributes = [''disabled'', ''checked'', ''selected'', ''required'', ''autoplay'',
     ''controls'', ''loop'', ''muted'', ''readonly'', ''open'', ''hidden'']"

text \<open>\<^verbatim>\<open>spec.path.every((p, i) => p === pathInSpecToOriginalAttr[i])\<close>\<close>

definition path_every :: "seg list \<Rightarrow> seg list \<Rightarrow> bool" where
  "path_every specPath fullPath =
     (length specPath \<le> length fullPath \<and> take (length specPath) fullPath = specPath)"

definition renderAttribute :: "bool \<Rightarrow> propsSpec \<Rightarrow> seg list \<Rightarrow> string \<times> string \<Rightarrow> string" where
  "renderAttribute isComponentDefinitionBody componentPropsSpec nodePath =
     (\<lambda>(originalHtmlAttrKey, originalHtmlAttrValue).
       (let k = kebabToCamelCase originalHtmlAttrKey;
            jsxPropNameForKey =
              (if k = ''class'' then ''className'' else if k = ''for'' then ''htmlFor'' else k);
            attributeNameToRenderInJsx =
              (if starts_with originalHtmlAttrKey ''data-'' \<or> starts_with originalHtmlAttrKey ''aria-''
               then originalHtmlAttrKey else jsxPropNameForKey)
        in case (if isComponentDefinitionBody
                 then findProp (\<lambda>p. ptype p = Attribute \<and>
                          path_every (ppath p) (nodePath @ [SKey ''attribs'', SKey originalHtmlAttrKey]))
                        componentPropsSpec
                 else None) of
             Some componentPropName \<Rightarrow>
               if jsxPropNameForKey = ''style''
               then '' style={'' @ componentPropName @ '' || '' @
                      json_object (styleStringToObject originalHtmlAttrValue) @ ''}''
               else '' '' @ attributeNameToRenderInJsx @ ''={'' @ componentPropName @ '' || '' @
                      json_string originalHtmlAttrValue @ ''}''
           | None \<Rightarrow>
               if jsxPropNameForKey = ''style''
               then '' style={'' @ json_object (styleStringToObject originalHtmlAttrValue) @ ''}''
               else if originalHtmlAttrValue = [] \<and> attributeNameToRenderInJsx \<in> set booleanAttributes
               then '' '' @ attributeNameToRenderInJsx
               else '' '' @ attributeNameToRenderInJsx @ ''={'' @ json_string originalHtmlAttrValue @ ''}''))"

text \<open>
  An \<^verbatim>\<open>svg\<close> element ends the rendering of a tag early: as an image bound
  to the icon prop of the definition being rendered, or as an image of the
  written asset.  \<open>None\<close>: the tag is rendered inline.  (The source wraps the
  second case in \<^verbatim>\<open>try\<close>; with a total serializer nothing in it throws.)
\<close>

definition renderSvg :: "env \<Rightarrow> bool \<Rightarrow> propsSpec \<Rightarrow> seg list \<Rightarrow> node \<Rightarrow> (string \<times> effect list) option" where
  "renderSvg E isComponentDefinitionBody componentPropsSpec nodePath node =
     (case (if isComponentDefinitionBody
            then findProp (\<lambda>p. ptype p = Svg \<and> pathStr (ppath p) = pathStr nodePath)
                   componentPropsSpec
            else None) of
        Some propName \<Rightarrow> Some (imgTag (''{'' @ propName @ ''}'') (altText node), [])
      | None \<Rightarrow>
          if map to_lower (nname node) = ''svg'' then
            (let svgString = serialize E node;
                 publicSrcPath = ''/'' @ replace_char bslash ''/'' (path_join E (svgsDir E) (svgFilename E svgString))
             in Some (imgTag ([dq] @ publicSrcPath @ [dq]) (altText node), [writeSvg E svgString]))
          else None)"

subsection \<open>\<^verbatim>\<open>astNodeToJsx\<close>\<close>

text \<open>
  The result is the text and the effects, in order.  The \<^verbatim>\<open>depth\<close>
  argument of the source is never read and is left out; so are the test for a
  missing node (a \<^verbatim>\<open>children\<close> array holds nodes) and the branches for
  attribute values that are booleans or numbers (they are strings).
  \<open>templateNodeForCurrentDefinition\<close> is the identity of that node, or
  \<open>None\<close> for \<^verbatim>\<open>null\<close>.  \<open>renderNodes\<close> is
  \<^verbatim>\<open>children.map((child, i) => astNodeToJsx(child, ...)).join('')\<close>, with the
  path of child \<open>i\<close> given by \<open>pathOf i\<close>.
\<close>

fun astNodeToJsx ::
    "env \<Rightarrow> registry \<Rightarrow> nat option \<Rightarrow> bool \<Rightarrow> propsSpec \<Rightarrow> seg list \<Rightarrow> node \<Rightarrow> string \<times> effect list"
  and renderNodes ::
    "env \<Rightarrow> registry \<Rightarrow> nat option \<Rightarrow> bool \<Rightarrow> propsSpec \<Rightarrow> (nat \<Rightarrow> seg list) \<Rightarrow> nat \<Rightarrow> node list \<Rightarrow> string \<times> effect list"
where
  "astNodeToJsx E localComponentRegistry templateNodeForCurrentDefinition
       isComponentDefinitionBody componentPropsSpec nodePath (Node n t nm as cs d) =
     (case (if templateNodeForCurrentDefinition = Some n then None else localComponentRegistry n) of
        Some compInfo \<Rightarrow>
          (let (props, effs) = instanceProps E (Node n t nm as cs d) (cPropsSpec compInfo) [];
               (childrenJsx, ceffs) =
                  (if map_of (cPropsSpec compInfo) ''children'' \<noteq> None
                   then renderNodes E localComponentRegistry templateNodeForCurrentDefinition
                          False [] (\<lambda>i. []) 0 cs
                   else ([], []))
           in (callSite compInfo props childrenJsx, effs @ ceffs))
      | None \<Rightarrow>
          if t = ''text'' then (renderText isComponentDefinitionBody componentPropsSpec nodePath d, [])
          else if t = ''comment'' then (renderComment d, [])
          else if t = ''directive'' \<or> t = ''script'' \<or> t = ''style'' then ([], [])
          else if t = ''tag'' then
            (let node = (if nm = ''svg'' then normalizeViewBox (Node n t nm as cs d)
                         else Node n t nm as cs d)
             in case renderSvg E isComponentDefinitionBody componentPropsSpec nodePath node of
                  Some r \<Rightarrow> r
                | None \<Rightarrow>
                   (let tagName = map to_lower nm;
                        attribsString = concat (map (renderAttribute isComponentDefinitionBody
                                           componentPropsSpec nodePath) (attribs node))
                    in if tagName \<in> set (selfClosingTags E)
                       then (''<'' @ tagName @ attribsString @ '' />'', [])
                       else
                         (let (childrenJsx, ceffs) =
                            (if isComponentDefinitionBody \<and>
                                map_option ptype (map_of componentPropsSpec ''children'') = Some ChildrenT
                             then (''{children}'', [])
                             else renderNodes E localComponentRegistry templateNodeForCurrentDefinition
                                    isComponentDefinitionBody componentPropsSpec
                                    (\<lambda>i. nodePath @ [SKey ''children'', SIdx i]) 0 cs)
                          in (''<'' @ tagName @ attribsString @ ''>'' @ childrenJsx @
                                ''</'' @ tagName @ ''>'', ceffs))))
          else ([], [ConsoleWarn (''Unhandled AST node type: '' @ t @ '' at path '' @ pathStr nodePath)]))"
| "renderNodes E localComponentRegistry templateNodeForCurrentDefinition
       isComponentDefinitionBody componentPropsSpec pathOf i [] = ([], [])"
| "renderNodes E localComponentRegistry templateNodeForCurrentDefinition
       isComponentDefinitionBody componentPropsSpec pathOf i (child # rest) =
     (let (a, e1) = astNodeToJsx E localComponentRegistry templateNodeForCurrentDefinition
                      isComponentDefinitionBody componentPropsSpec (pathOf i) child;
          (b, e2) = renderNodes E localComponentRegistry templateNodeForCurrentDefinition
                      isComponentDefinitionBody componentPropsSpec pathOf (Suc i) rest
      in (a @ b, e1 @ e2))"

section \<open>Pattern detection\<close>

record candidate =
  nameAttempt :: string
  astNode :: node
  ctype :: string
  candPropsSpec :: propsSpec
  instances :: "node list"

fun findNodes :: "(node \<Rightarrow> bool) \<Rightarrow> node \<Rightarrow> node list" where
  "findNodes criteriaFn (Node n t nm as cs d) =
     (if criteriaFn (Node n t nm as cs d) then [Node n t nm as cs d] else [])
     @ concat (map (findNodes criteriaFn) cs)"

definition isNodeAlreadyComponentPart :: "node \<Rightarrow> registry \<Rightarrow> bool" where
  "isNodeAlreadyComponentPart node localComponentRegistry = (localComponentRegistry (nid node) \<noteq> None)"

definition isNodeEligibleForComponentization :: "node \<Rightarrow> registry \<Rightarrow> bool" where
  "isNodeEligibleForComponentization node localComponentRegistry =
     (if ntype node \<noteq> ''tag'' then False
      else if isNodeAlreadyComponentPart node localComponentRegistry then False
      else if nname node = ''svg'' then False
      else True)"

subsection \<open>Layout pass\<close>

definition isLayoutMatch :: "string \<Rightarrow> node \<Rightarrow> bool" where
  "isLayoutMatch identifier node =
     (ntype node = ''tag'' \<and>
      ((case map_of (attribs node) ''class'' of
          Some c \<Rightarrow> identifier \<in> set (split_char (CHR '' '') c)
        | None \<Rightarrow> False)
       \<or> map_of (attribs node) ''id'' = Some identifier))"

definition layoutCandidates :: "env \<Rightarrow> registry \<Rightarrow> node \<Rightarrow> candidate list" where
  "layoutCandidates E localComponentRegistry bodyNode =
     concat (map (\<lambda>identifier.
        map (\<lambda>node. \<lparr>nameAttempt = toPascalCase identifier @ ''Layout'', astNode = node,
                      ctype = ''layout'', candPropsSpec = [], instances = [node]\<rparr>)
          (filter (\<lambda>node. \<not> isNodeAlreadyComponentPart node localComponentRegistry)
             (findNodes (isLayoutMatch identifier) bodyNode)))
        (layoutIdentifiers E))"

subsection \<open>Repetition pass\<close>

text \<open>The two tables \<^verbatim>\<open>findRepetitive\<close> fills: \<^verbatim>\<open>signatures\<close>, from a
  signature to the nodes that have it (each with its path), and
  \<^verbatim>\<open>processedForRepetition\<close>.\<close>

record repState =
  signatures :: "(string \<times> (node \<times> seg list) list) list"
  processedForRepetition :: "nat list"

definition addSignature :: "string \<Rightarrow> node \<times> seg list \<Rightarrow> repState \<Rightarrow> repState" where
  "addSignature sig entry st =
     (case map_of (signatures st) sig of
        Some entries \<Rightarrow> st\<lparr>signatures := AList.update sig (entries @ [entry]) (signatures st)\<rparr>
      | None \<Rightarrow> st\<lparr>signatures := AList.update sig [entry] (signatures st)\<rparr>)"

definition markProcessed :: "node \<Rightarrow> repState \<Rightarrow> repState" where
  "markProcessed node st = st\<lparr>processedForRepetition := set_add (nid node) (processedForRepetition st)\<rparr>"

fun findRepetitive :: "env \<Rightarrow> registry \<Rightarrow> node \<Rightarrow> seg list \<Rightarrow> repState \<Rightarrow> repState"
  and findRepetitiveChildren :: "env \<Rightarrow> registry \<Rightarrow> node list \<Rightarrow> nat \<Rightarrow> seg list \<Rightarrow> repState \<Rightarrow> repState"
where
  "findRepetitive E localComponentRegistry (Node n t nm as cs d) currentPath st =
     (if n \<in> set (processedForRepetition st) then st
      else
        (let st1 = (if isNodeEligibleForComponentization (Node n t nm as cs d) localComponentRegistry
                       \<and> minChildrenForRepetition E \<le> length cs
                    then addSignature (getStructuralSignature (Node n t nm as cs d))
                           (Node n t nm as cs d, currentPath) st
                    else st);
             st2 = findRepetitiveChildren E localComponentRegistry cs 0 currentPath st1
         in markProcessed (Node n t nm as cs d) st2))"
| "findRepetitiveChildren E localComponentRegistry [] i currentPath st = st"
| "findRepetitiveChildren E localComponentRegistry (child # rest) i currentPath st =
     findRepetitiveChildren E localComponentRegistry rest (Suc i) currentPath
       (if ntype child = ''tag'' \<and> nname child = ''svg'' then markProcessed child st
        else findRepetitive E localComponentRegistry child
               (currentPath @ [SKey ''children'', SIdx i]) st)"

definition repetitionBaseName :: "node \<Rightarrow> string" where
  "repetitionBaseName firstNodeInstance =
     (let classes = (case map_of (attribs firstNodeInstance) ''class'' of
                       Some c \<Rightarrow> filter (\<lambda>w. w \<noteq> []) (split_ws (trim c))
                     | None \<Rightarrow> []);
          baseName =
            (if classes \<noteq> [] then toPascalCase (hd classes)
             else (case map_of (attribs firstNodeInstance) ''id'' of
                     Some i \<Rightarrow> if i \<noteq> [] then toPascalCase i else ''Reusable''
                   | None \<Rightarrow> ''Reusable''))
      in if length baseName \<le> 1 \<or> baseName = ''W''
         then toPascalCase (nname firstNodeInstance) @ ''Element'' else baseName)"

text \<open>\<^verbatim>\<open>signatures.forEach(...)\<close>: one candidate for each group that is
  large enough.  \<open>None\<close>: prop inference raised.  (A group is never
  empty: it is created with its first node.)\<close>

fun groupCandidates ::
  "env \<Rightarrow> registry \<Rightarrow> (string \<times> (node \<times> seg list) list) list \<Rightarrow> candidate list option" where
  "groupCandidates E localComponentRegistry [] = Some []"
| "groupCandidates E localComponentRegistry ((sig, nodesWithPaths) # rest) =
     (if minRepetitionsForComponent E \<le> length nodesWithPaths \<and> nodesWithPaths \<noteq> []
         \<and> \<not> isNodeAlreadyComponentPart (fst (hd nodesWithPaths)) localComponentRegistry
      then
        (let firstNodeInstance = fst (hd nodesWithPaths) in
         case analyzeInstancesForProps E firstNodeInstance (map fst nodesWithPaths) of
           None \<Rightarrow> None
         | Some propsSpec \<Rightarrow>
             map_option
               (\<lambda>cands. \<lparr>nameAttempt = repetitionBaseName firstNodeInstance @ ''Item'',
                           astNode = firstNodeInstance, ctype = ''repetition'',
                           candPropsSpec = propsSpec, instances = map fst nodesWithPaths\<rparr> # cands)
               (groupCandidates E localComponentRegistry rest))
      else groupCandidates E localComponentRegistry rest)"

definition emptyRepState :: repState where
  "emptyRepState = \<lparr>signatures = [], processedForRepetition = []\<rparr>"

definition repetitionCandidates :: "env \<Rightarrow> registry \<Rightarrow> node \<Rightarrow> candidate list option" where
  "repetitionCandidates E localComponentRegistry bodyNode =
     groupCandidates E localComponentRegistry
       (signatures (findRepetitive E localComponentRegistry bodyNode [] emptyRepState))"

text \<open>The candidate list of one tree, before it is sorted.\<close>

definition componentCandidates :: "env \<Rightarrow> registry \<Rightarrow> node \<Rightarrow> candidate list option" where
  "componentCandidates E localComponentRegistry bodyNode =
     map_option (\<lambda>reps. layoutCandidates E localComponentRegistry bodyNode @ reps)
       (repetitionCandidates E localComponentRegistry bodyNode)"

subsection \<open>The detector with the already-claimed guard removed\<close>

text \<open>\<^verbatim>\<open>isNodeEligibleForComponentization\<close> without its second line, and the
  traversal and candidate list built on it.\<close>

definition isNodeEligible_noguard :: "node \<Rightarrow> bool" where
  "isNodeEligible_noguard node =
     (if ntype node \<noteq> ''tag'' then False
      else if nname node = ''svg'' then False
      else True)"

fun findRepetitive_noguard :: "env \<Rightarrow> node \<Rightarrow> seg list \<Rightarrow> repState \<Rightarrow> repState"
  and findRepetitiveChildren_noguard :: "env \<Rightarrow> node list \<Rightarrow> nat \<Rightarrow> seg list \<Rightarrow> repState \<Rightarrow> repState"
where
  "findRepetitive_noguard E (Node n t nm as cs d) currentPath st =
     (if n \<in> set (processedForRepetition st) then st
      else
        (let st1 = (if isNodeEligible_noguard (Node n t nm as cs d)
                       \<and> minChildrenForRepetition E \<le> length cs
                    then addSignature (getStructuralSignature (Node n t nm as cs d))
                           (Node n t nm as cs d, currentPath) st
                    else st);
             st2 = findRepetitiveChildren_noguard E cs 0 currentPath st1
         in markProcessed (Node n t nm as cs d) st2))"
| "findRepetitiveChildren_noguard E [] i currentPath st = st"
| "findRepetitiveChildren_noguard E (child # rest) i currentPath st =
     findRepetitiveChildren_noguard E rest (Suc i) currentPath
       (if ntype child = ''tag'' \<and> nname child = ''svg'' then markProcessed child st
        else findRepetitive_noguard E child (currentPath @ [SKey ''children'', SIdx i]) st)"

definition componentCandidates_noguard :: "env \<Rightarrow> registry \<Rightarrow> node \<Rightarrow> candidate list option" where
  "componentCandidates_noguard E localComponentRegistry bodyNode =
     map_option (\<lambda>reps. layoutCandidates E localComponentRegistry bodyNode @ reps)
       (groupCandidates E localComponentRegistry
          (signatures (findRepetitive_noguard E bodyNode [] emptyRepState)))"

section \<open>Global registry and naming\<close>

text \<open>\<^verbatim>\<open>globalGeneratedComponentSignatures\<close> (fingerprint to name and file
  path) and \<^verbatim>\<open>globalNameUsage\<close> (name to fingerprint).\<close>

record globalState =
  globalGeneratedComponentSignatures :: "(string \<times> string \<times> string) list"
  globalNameUsage :: "(string \<times> string) list"

definition emptyGlobalState :: globalState where
  "emptyGlobalState = \<lparr>globalGeneratedComponentSignatures = [], globalNameUsage = []\<rparr>"

definition generateComponentFingerprint :: "env \<Rightarrow> string \<Rightarrow> propsSpec \<Rightarrow> string" where
  "generateComponentFingerprint E jsxBody propsSpec =
     md5hex E (jsxBody @ ''::PROPS::'' @ json_array (sort (map fst propsSpec)))"

text \<open>
  Lines 390 to 417 of \<^verbatim>\<open>identifyComponents\<close>: the final name, the file
  path, whether the component is new, and the name table after it.  A name
  counts as unused when the table has no entry for it or an empty one
  (\<^verbatim>\<open>!existingFingerprintForName\<close>).
\<close>

definition resolveName ::
  "env \<Rightarrow> globalState \<Rightarrow> string \<Rightarrow> string \<Rightarrow> string \<times> string \<times> bool \<times> globalState" where
  "resolveName E G fingerprint baseName =
     (case map_of (globalGeneratedComponentSignatures G) fingerprint of
        Some existingGlobalInfo \<Rightarrow> (fst existingGlobalInfo, snd existingGlobalInfo, False, G)
      | None \<Rightarrow>
          (let existingFingerprintForName = map_of (globalNameUsage G) baseName;
               unused = (existingFingerprintForName = None \<or> existingFingerprintForName = Some []);
               finalName = (if unused then baseName else baseName @ ''_'' @ take 8 fingerprint);
               G1 = (if unused
                     then G\<lparr>globalNameUsage := AList.update baseName fingerprint (globalNameUsage G)\<rparr>
                     else G)
           in (finalName, path_join E (componentsDir E) (finalName @ ''.jsx''), True, G1)))"

text \<open>Lines 425 to 429: a new component is entered under its fingerprint.\<close>

definition recordComponent :: "string \<Rightarrow> string \<times> string \<times> bool \<times> globalState \<Rightarrow> globalState" where
  "recordComponent fingerprint = (\<lambda>(finalName, componentFilePath, isNewGlobalComponent, G).
     if isNewGlobalComponent
     then G\<lparr>globalGeneratedComponentSignatures :=
              AList.update fingerprint (finalName, componentFilePath)
                (globalGeneratedComponentSignatures G)\<rparr>
     else G)"

text \<open>A run of name resolutions, as the loop over the candidates of a batch
  performs them: the fingerprint and tentative name of each candidate in turn;
  the result lists the final names.\<close>

fun resolveAll :: "env \<Rightarrow> globalState \<Rightarrow> (string \<times> string) list \<Rightarrow> string list" where
  "resolveAll E G [] = []"
| "resolveAll E G ((fingerprint, tentativeName) # rest) =
     (let r = resolveName E G fingerprint tentativeName
      in fst r # resolveAll E (recordComponent fingerprint r) rest)"

section \<open>\<^verbatim>\<open>identifyComponents\<close>\<close>

fun countNodes :: "node \<Rightarrow> nat" where
  "countNodes (Node n t nm as cs d) = 1 + sum_list (map countNodes cs)"

record componentDef =
  defCandidate :: candidate
  defName :: string
  jsxBody :: string
  filePath :: string

definition registerInstances :: "candidate \<Rightarrow> string \<Rightarrow> registry \<Rightarrow> registry" where
  "registerInstances cand finalName localComponentRegistry =
     fold (\<lambda>instanceNode r.
             r(nid instanceNode \<mapsto>
                \<lparr>cname = finalName, cAstNode = nid (astNode cand), cPropsSpec = candPropsSpec cand\<rparr>))
       (instances cand) localComponentRegistry"

text \<open>The loop over the sorted candidates (lines 372 to 437), carrying the
  per-tree registry, the global state, the definitions made so far and the
  effects.\<close>

fun processCandidates ::
  "env \<Rightarrow> candidate list \<Rightarrow> registry \<Rightarrow> globalState \<Rightarrow> componentDef list \<Rightarrow> effect list \<Rightarrow>
   componentDef list \<times> registry \<times> globalState \<times> effect list" where
  "processCandidates E [] localComponentRegistry G defs effs = (defs, localComponentRegistry, G, effs)"
| "processCandidates E (cand # rest) localComponentRegistry G defs effs =
     (let (componentBodyJsx, e1) =
            astNodeToJsx E localComponentRegistry (Some (nid (astNode cand))) True
              (candPropsSpec cand) [] (astNode cand);
          fingerprint = generateComponentFingerprint E componentBodyJsx (candPropsSpec cand);
          r = resolveName E G fingerprint (nameAttempt cand);
          finalName = fst r;
          isNewGlobalComponent = fst (snd (snd r));
          e2 = (if isNewGlobalComponent then []
                else [ConsoleLog (''Reusing component: '' @ finalName @ '' (originally from '' @
                        nameAttempt cand @ '')'')])
      in processCandidates E rest
           (registerInstances cand finalName localComponentRegistry)
           (recordComponent fingerprint r)
           (if isNewGlobalComponent
            then defs @ [\<lparr>defCandidate = cand, defName = finalName, jsxBody = componentBodyJsx,
                          filePath = fst (snd r)\<rparr>]
            else defs)
           (effs @ e1 @ e2))"

definition identifyComponents ::
  "env \<Rightarrow> node \<Rightarrow> registry \<Rightarrow> globalState \<Rightarrow>
   (componentDef list \<times> registry \<times> globalState \<times> effect list) option" where
  "identifyComponents E bodyNode localComponentRegistry G =
     map_option
       (\<lambda>cands. processCandidates E (sort_key (\<lambda>c. countNodes (astNode c)) cands)
                   localComponentRegistry G [] [])
       (componentCandidates E localComponentRegistry bodyNode)"


section \<open>An environment for examples\<close>

text \<open>
  The examples below run the definitions on small trees.  They use the default
  configuration of the README, and stand-ins for the three external functions:
  a plain XML printer for the serializer, the hexadecimal spelling of a text
  for its digest, and joining with a slash for \<^verbatim>\<open>path.join\<close>.  No theorem about the code
  depends on these choices; general statements are over every environment.
\<close>

fun xmlOf :: "node \<Rightarrow> string" where
  "xmlOf (Node n t nm as cs d) =
     (if t = ''text'' then d
      else if t = ''comment'' then ''<!--'' @ d @ ''-->''
      else ''<'' @ nm @ concat (map (\<lambda>(k, v). '' '' @ k @ ''='' @ [dq] @ v @ [dq]) as) @
           (if cs = [] then ''/>'' else ''>'' @ concat (map xmlOf cs) @ ''</'' @ nm @ ''>''))"

definition hexOf :: "string \<Rightarrow> string" where
  "hexOf s = concat (map (\<lambda>c. [hex_digit ((of_char c :: nat) div 16),
                                   hex_digit ((of_char c :: nat) mod 16)]) s)"

definition exampleEnv :: env where
  "exampleEnv = \<lparr>
     md5hex = hexOf,
     serialize = xmlOf,
     selfClosingTags = [''img'', ''br'', ''hr'', ''input'', ''meta'', ''link'', ''area'', ''base'',
       ''col'', ''embed'', ''param'', ''source'', ''track'', ''wbr''],
     layoutIdentifiers = [''navbar'', ''footer'', ''sidebar'', ''main-content'', ''container''],
     minChildrenForRepetition = 2,
     minRepetitionsForComponent = 2,
     svgsDir = ''svgs'',
     componentsDir = ''components'',
     svgsOutputDir = ''react_output/public/svgs'',
     path_join = (\<lambda>a b. a @ ''/'' @ b) \<rparr>"

text \<open>Short forms for the nodes of the examples.\<close>

definition tx :: "nat \<Rightarrow> string \<Rightarrow> node" where
  "tx i d = Node i ''text'' [] [] [] d"

definition el :: "nat \<Rightarrow> string \<Rightarrow> (string \<times> string) list \<Rightarrow> node list \<Rightarrow> node" where
  "el i nm as cs = Node i ''tag'' nm as cs []"

section \<open>Notions used in the statements\<close>

text \<open>
  What \<^verbatim>\<open>generatePropName\<close> promises: the name is not in use; it is the
  base name when that is free, and otherwise the base name followed by the
  first number, counting from 1, whose suffixed name is free.
\<close>

definition fresh_name :: "string \<Rightarrow> string list \<Rightarrow> string \<Rightarrow> bool" where
  "fresh_name base existing name \<longleftrightarrow>
     name \<notin> set existing \<and>
     (if base \<notin> set existing then name = base
      else \<exists>k\<ge>1. name = base @ show_nat k \<and>
             (\<forall>j. 1 \<le> j \<and> j < k \<longrightarrow> base @ show_nat j \<in> set existing))"






text \<open>A write is content-addressed when its path is the icon file name
  made from the digest of its content.\<close>

definition iconWrite :: "env \<Rightarrow> effect \<Rightarrow> bool" where
  "iconWrite E e = (case e of WriteFile p c \<Rightarrow> p = path_join E (svgsOutputDir E) (svgFilename E c) | other \<Rightarrow> True)"

text \<open>The nodes that \<^verbatim>\<open>findRepetitive\<close> has entered under some
  signature.\<close>

definition groupedNodes :: "repState \<Rightarrow> node set" where
  "groupedNodes st = {n. \<exists>sig entries p. (sig, entries) \<in> set (signatures st) \<and> (n, p) \<in> set entries}"

text \<open>A tree for the examples: two \<^verbatim>\<open>container\<close> elements of one shape.\<close>

definition containerBody :: node where
  "containerBody =
     el 0 ''body'' []
       [el 1 ''div'' [(''class'', ''container'')] [el 2 ''p'' [] [tx 3 ''a''], el 5 ''p'' [] []],
        el 4 ''div'' [(''class'', ''container'')] [el 6 ''p'' [] [tx 7 ''b''], el 8 ''p'' [] []]]"

section \<open>Properties of the structural signature\<close>








section \<open>Properties of prop inference\<close>

lemma gen_loop_not_in: "gen_loop base ex c p \<notin> set ex"
  by (induction base ex c p rule: gen_loop.induct) (subst gen_loop.simps, simp)

lemma gen_loop_suffix:
  "p \<in> set ex \<Longrightarrow>
   \<exists>k\<ge>c. gen_loop base ex c p = base @ show_nat k \<and>
          (\<forall>j. c \<le> j \<and> j < k \<longrightarrow> base @ show_nat j \<in> set ex)"
proof (induction base ex c p rule: gen_loop.induct)
  case (1 base ex c p)
  have step: "gen_loop base ex c p = gen_loop base ex (Suc c) (base @ show_nat c)"
    using "1.prems" by (subst gen_loop.simps) simp
  show ?case
  proof (cases "base @ show_nat c \<in> set ex")
    case True
    from "1.IH"[OF "1.prems" True] obtain k where k: "Suc c \<le> k"
      "gen_loop base ex (Suc c) (base @ show_nat c) = base @ show_nat k"
      "\<forall>j. Suc c \<le> j \<and> j < k \<longrightarrow> base @ show_nat j \<in> set ex" by blast
    have "\<forall>j. c \<le> j \<and> j < k \<longrightarrow> base @ show_nat j \<in> set ex"
    proof (intro allI impI)
      fix j assume "c \<le> j \<and> j < k"
      then show "base @ show_nat j \<in> set ex"
        using True k(3) by (cases "j = c") auto
    qed
    with k step show ?thesis by (intro exI[of _ k]) auto
  next
    case False
    then have "gen_loop base ex (Suc c) (base @ show_nat c) = base @ show_nat c"
      by (subst gen_loop.simps) simp
    with step show ?thesis by (intro exI[of _ c]) auto
  qed
qed

lemma generatePropName_fresh: "fresh_name base ex (generatePropName base ex)"
proof (cases "base \<in> set ex")
  case True
  from gen_loop_suffix[OF True, of 1 base] gen_loop_not_in[of base ex 1 base] True
  show ?thesis unfolding fresh_name_def generatePropName_def by auto
next
  case False
  then have "generatePropName base ex = base"
    unfolding generatePropName_def by (subst gen_loop.simps) simp
  with False show ?thesis by (simp add: fresh_name_def)
qed

lemma update_fresh_key: "k \<notin> fst ` set al \<Longrightarrow> AList.update k v al = al @ [(k, v)]"
  by (induction al) auto

lemma name_props_inv:
  assumes "name_props t dps pc ex spec0 = Some (ex', spec')" "ex = map fst spec0" "distinct ex"
  shows "ex' = map fst spec' \<and> distinct ex' \<and>
         (\<exists>named. spec' = spec0 @ named \<and> map snd named = map snd dps \<and>
            (\<forall>i<length named. \<exists>base c c'.
                deriveBasePropName t c (snd (named ! i)) = Some (base, c') \<and>
                fresh_name base (ex @ map fst (take i named)) (fst (named ! i))))"
  using assms
proof (induction dps arbitrary: pc ex spec0)
  case Nil
  then show ?case by auto
next
  case (Cons a dps)
  obtain key dp where a: "a = (key, dp)" by (cases a)
  from Cons.prems(1) a obtain base pc1 where
    d: "deriveBasePropName t pc dp = Some (base, pc1)"
    by (auto split: option.splits)
  define final where "final = generatePropName base ex"
  have fr: "fresh_name base ex final" unfolding final_def by (rule generatePropName_fresh)
  then have notin: "final \<notin> set ex" by (simp add: fresh_name_def)
  have "name_props t dps pc1 (set_add final ex) (AList.update final dp spec0) = Some (ex', spec')"
    using Cons.prems(1) a d by (simp add: final_def Let_def)
  moreover have "set_add final ex = ex @ [final]" using notin by (simp add: set_add_def)
  moreover have "AList.update final dp spec0 = spec0 @ [(final, dp)]"
    using notin Cons.prems(2) by (intro update_fresh_key) simp
  ultimately have rec: "name_props t dps pc1 (ex @ [final]) (spec0 @ [(final, dp)]) = Some (ex', spec')"
    by simp
  have e1: "ex @ [final] = map fst (spec0 @ [(final, dp)])" using Cons.prems(2) by simp
  have e2: "distinct (ex @ [final])" using Cons.prems(3) notin by simp
  from Cons.IH[OF rec e1 e2] obtain named where
    n: "ex' = map fst spec'" "distinct ex'" "spec' = (spec0 @ [(final, dp)]) @ named"
       "map snd named = map snd dps"
       "\<forall>i<length named. \<exists>base c c'.
           deriveBasePropName t c (snd (named ! i)) = Some (base, c') \<and>
           fresh_name base ((ex @ [final]) @ map fst (take i named)) (fst (named ! i))"
    by blast
  let ?named = "(final, dp) # named"
  have "\<forall>i<length ?named. \<exists>base c c'.
           deriveBasePropName t c (snd (?named ! i)) = Some (base, c') \<and>
           fresh_name base (ex @ map fst (take i ?named)) (fst (?named ! i))"
  proof (intro allI impI)
    fix i assume i: "i < length ?named"
    show "\<exists>base c c'. deriveBasePropName t c (snd (?named ! i)) = Some (base, c') \<and>
           fresh_name base (ex @ map fst (take i ?named)) (fst (?named ! i))"
    proof (cases i)
      case 0
      with d fr show ?thesis by auto
    next
      case (Suc j)
      with i have "j < length named" by simp
      with n(5) Suc show ?thesis by simp
    qed
  qed
  moreover have "spec' = spec0 @ ?named" using n(3) by simp
  moreover have "map snd ?named = map snd (a # dps)" using n(4) a by simp
  ultimately show ?case using n(1,2) by blast
qed

text \<open>
  C9.  In a prop spec that inference returns the names are pairwise distinct.
  The spec lists the differing paths in discovery order, one prop each (a
  children prop, if any, comes after them), and the name of each prop is the
  fresh name for its base name among the names given before it: the base name
  itself, or, when an earlier path took it, the base name with the first free
  number appended.
\<close>

theorem prop_names_distinct:
  assumes "analyzeInstancesForProps E t insts = Some spec"
  shows "distinct (map fst spec) \<and>
         length (differingPaths E t insts) \<le> length spec \<and>
         (\<forall>i < length (differingPaths E t insts).
             snd (spec ! i) = snd (differingPaths E t insts ! i) \<and>
             (\<exists>base c c'. deriveBasePropName t c (snd (spec ! i)) = Some (base, c') \<and>
                 fresh_name base (map fst (take i spec)) (fst (spec ! i))))"
proof -
  let ?dps = "differingPaths E t insts"
  from assms obtain ex named where
    np: "name_props t ?dps 0 [] [] = Some (ex, named)"
    by (auto simp: analyzeInstancesForProps_def split: option.splits)
  from name_props_inv[OF np] have
    inv: "ex = map fst named" "distinct ex" "map snd named = map snd ?dps"
      "\<forall>i<length named. \<exists>base c c'.
          deriveBasePropName t c (snd (named ! i)) = Some (base, c') \<and>
          fresh_name base (map fst (take i named)) (fst (named ! i))"
    by auto
  have len: "length named = length ?dps" using inv(3) by (metis length_map)
  define child where "child = generatePropName ''children'' ex"
  have "fresh_name ''children'' ex child" unfolding child_def by (rule generatePropName_fresh)
  then have cn: "child \<notin> fst ` set named" using inv(1) by (simp add: fresh_name_def)
  consider (plain) "spec = named"
    | (kids) "spec = named @ [(child, \<lparr>ptype = ChildrenT, ppath = [SKey ''children''], pvalues = []\<rparr>)]"
    using assms np cn
    by (auto simp: analyzeInstancesForProps_def child_def update_fresh_key split: if_splits)
  then show ?thesis
  proof cases
    case plain
    have "\<forall>i<length ?dps. snd (named ! i) = snd (?dps ! i)"
      using inv(3) len by (metis nth_map)
    with plain inv len show ?thesis by auto
  next
    case kids
    have d: "distinct (map fst spec)" using kids inv(1,2) cn by auto
    have "\<forall>i<length ?dps. snd (named ! i) = snd (?dps ! i)"
      using inv(3) len by (metis nth_map)
    with kids inv(4) len d show ?thesis by (auto simp: nth_append)
  qed
qed

text \<open>Two links that differ in both of their \<^verbatim>\<open>href\<close> values: the second
  differing path gets the suffixed name.\<close>

theorem prop_names_distinct_witness:
  "analyzeInstancesForProps exampleEnv
     (el 1 ''div'' [] [el 2 ''a'' [(''href'', ''/a'')] [], el 3 ''a'' [(''href'', ''/b'')] []])
     [el 1 ''div'' [] [el 2 ''a'' [(''href'', ''/a'')] [], el 3 ''a'' [(''href'', ''/b'')] []],
      el 4 ''div'' [] [el 5 ''a'' [(''href'', ''/c'')] [], el 6 ''a'' [(''href'', ''/d'')] []]]
   = Some [(''href'', \<lparr>ptype = Attribute,
               ppath = [SKey ''children'', SIdx 0, SKey ''attribs'', SKey ''href''],
               pvalues = [''/c'', ''/a'']\<rparr>),
           (''href1'', \<lparr>ptype = Attribute,
               ppath = [SKey ''children'', SIdx 1, SKey ''attribs'', SKey ''href''],
               pvalues = [''/d'', ''/b'']\<rparr>)]
   \<and> distinct [''href'', ''href1'']"
proof -
  let ?t = "el 1 ''div'' [] [el 2 ''a'' [(''href'', ''/a'')] [], el 3 ''a'' [(''href'', ''/b'')] []]"
  let ?i = "el 4 ''div'' [] [el 5 ''a'' [(''href'', ''/c'')] [], el 6 ''a'' [(''href'', ''/d'')] []]"
  let ?spec = "[(''href'', \<lparr>ptype = Attribute,
               ppath = [SKey ''children'', SIdx 0, SKey ''attribs'', SKey ''href''],
               pvalues = [''/c'', ''/a'']\<rparr>),
           (''href1'', \<lparr>ptype = Attribute,
               ppath = [SKey ''children'', SIdx 1, SKey ''attribs'', SKey ''href''],
               pvalues = [''/d'', ''/b'']\<rparr>)]"
  have h: "analyzeInstancesForProps exampleEnv ?t [?t, ?i] = Some ?spec" by code_simp
  from prop_names_distinct[OF h] have "distinct (map fst ?spec)" by blast
  with h show ?thesis by simp
qed

lemma differingPaths_self: "differingPaths E t [t] = []"
  by (simp add: differingPaths_def)

lemma analyze_self: "analyzeInstancesForProps E t [t] = Some []"
  by (simp add: analyzeInstancesForProps_def differingPaths_self)

text \<open>
  C10.  Inference on the template alone returns the empty spec: no attribute,
  text, icon or children prop.  A layout candidate has exactly one instance,
  its own node, and carries the empty spec, which is what inference gives for
  it.
\<close>

theorem single_instance_no_props:
  "analyzeInstancesForProps E templateNode [templateNode] = Some [] \<and>
   (\<forall>c \<in> set (layoutCandidates E localComponentRegistry bodyNode).
      candPropsSpec c = [] \<and> instances c = [astNode c] \<and> ctype c = ''layout'' \<and>
      analyzeInstancesForProps E (astNode c) (instances c) = Some (candPropsSpec c))"
  by (auto simp: analyze_self layoutCandidates_def)

text \<open>A body with one \<^verbatim>\<open>navbar\<close> element has a layout candidate.\<close>

theorem single_instance_no_props_witness:
  "hd (layoutCandidates exampleEnv Map.empty
         (el 1 ''body'' [] [el 2 ''nav'' [(''class'', ''navbar'')] [tx 3 ''Menu'']]))
     \<in> set (layoutCandidates exampleEnv Map.empty
         (el 1 ''body'' [] [el 2 ''nav'' [(''class'', ''navbar'')] [tx 3 ''Menu'']])) \<and>
   candPropsSpec (hd (layoutCandidates exampleEnv Map.empty
         (el 1 ''body'' [] [el 2 ''nav'' [(''class'', ''navbar'')] [tx 3 ''Menu'']]))) = []"
proof -
  let ?L = "layoutCandidates exampleEnv Map.empty
         (el 1 ''body'' [] [el 2 ''nav'' [(''class'', ''navbar'')] [tx 3 ''Menu'']])"
  have "?L \<noteq> []" by code_simp
  then have m: "hd ?L \<in> set ?L" by simp
  from single_instance_no_props[where E = exampleEnv and localComponentRegistry = Map.empty
      and bodyNode = "el 1 ''body'' [] [el 2 ''nav'' [(''class'', ''navbar'')] [tx 3 ''Menu'']]"] m
  have "candPropsSpec (hd ?L) = []" by blast
  with m show ?thesis by simp
qed


lemma set_set_add [simp]: "set (set_add v xs) = insert v (set xs)"
  by (auto simp: set_add_def)








section \<open>Properties of the code generator\<close>

lemma iconWrite_writeSvg [simp]: "iconWrite E (writeSvg E s)"
  by (simp add: iconWrite_def writeSvg_def)

lemma iconWrite_warn [simp]: "iconWrite E (ConsoleWarn m)"
  by (simp add: iconWrite_def)

lemma valueToPass_writes:
  "valueToPass E node p = Some (v, effs) \<Longrightarrow> list_all (iconWrite E) effs"
  by (auto simp: valueToPass_def Let_def split: propType.splits jsv.splits)

lemma instanceProps_writes:
  "list_all (iconWrite E) (snd (instanceProps E node spec acc))"
proof (induction spec arbitrary: acc)
  case Nil
  show ?case by simp
next
  case (Cons a spec)
  obtain propName p where a: "a = (propName, p)" by (cases a)
  show ?case
  proof (cases "valueToPass E node p")
    case None
    with a Cons.IH show ?thesis by simp
  next
    case (Some r)
    obtain v effs where r: "r = (v, effs)" by (cases r)
    from Some r have "list_all (iconWrite E) effs" by (auto dest: valueToPass_writes)
    with a Some r Cons.IH[of "AList.update propName v acc"] show ?thesis
      by (simp add: case_prod_beta)
  qed
qed

lemma renderSvg_writes:
  "renderSvg E isDef spec nodePath node = Some (out, effs) \<Longrightarrow> list_all (iconWrite E) effs"
  by (auto simp: renderSvg_def Let_def split: option.splits if_splits)

text \<open>The three ways \<^verbatim>\<open>astNodeToJsx\<close> goes: a call site, a node
  that is not an element, an element.\<close>

lemma astNodeToJsx_other:
  assumes "(if tmpl = Some n then None else reg n) = None" and "t \<noteq> ''tag''"
  shows "snd (astNodeToJsx E reg tmpl isDef spec nodePath (Node n t nm as cs d)) = [] \<or>
         (\<exists>m. snd (astNodeToJsx E reg tmpl isDef spec nodePath (Node n t nm as cs d)) = [ConsoleWarn m])"
  using assms by simp

lemma astNodeToJsx_tag:
  assumes "(if tmpl = Some n then None else reg n) = None"
  shows "astNodeToJsx E reg tmpl isDef spec nodePath (Node n ''tag'' nm as cs d) =
     (let node' = (if nm = ''svg'' then normalizeViewBox (Node n ''tag'' nm as cs d) else Node n ''tag'' nm as cs d)
      in case renderSvg E isDef spec nodePath node' of
           Some r \<Rightarrow> r
         | None \<Rightarrow>
            (let tagName = map to_lower nm;
                 attribsString = concat (map (renderAttribute isDef spec nodePath) (attribs node'))
             in if tagName \<in> set (selfClosingTags E)
                then (''<'' @ tagName @ attribsString @ '' />'', [])
                else
                  (let kids =
                     (if isDef \<and> map_option ptype (map_of spec ''children'') = Some ChildrenT
                      then (''{children}'', [])
                      else renderNodes E reg tmpl isDef spec
                             (\<lambda>i. nodePath @ [SKey ''children'', SIdx i]) 0 cs)
                   in (''<'' @ tagName @ attribsString @ ''>'' @ fst kids @
                         ''</'' @ tagName @ ''>'', snd kids))))"
  using assms by (simp add: Let_def case_prod_beta split: option.split)

lemma astNodeToJsx_callsite:
  assumes "(if tmpl = Some n then None else reg n) = Some ci"
  shows "astNodeToJsx E reg tmpl isDef spec nodePath (Node n t nm as cs d) =
     (callSite ci (fst (instanceProps E (Node n t nm as cs d) (cPropsSpec ci) []))
        (if map_of (cPropsSpec ci) ''children'' \<noteq> None
         then fst (renderNodes E reg tmpl False [] (\<lambda>i. []) 0 cs) else []),
      snd (instanceProps E (Node n t nm as cs d) (cPropsSpec ci) []) @
        (if map_of (cPropsSpec ci) ''children'' \<noteq> None
         then snd (renderNodes E reg tmpl False [] (\<lambda>i. []) 0 cs) else []))"
  using assms by (simp add: Let_def case_prod_beta)



text \<open>
  C5, as the code has it.  A node that is in the registry and is not the
  template root of the definition being rendered renders as a reference to its
  component, whatever the context: the text is the call site of the registered
  name, self-closed or around the children.  The node that is the template
  root of the current definition is rendered inline even when registered.
\<close>

theorem registered_node_renders_reference:
  assumes "localComponentRegistry (nid node) = Some compInfo"
    and "templateNodeForCurrentDefinition \<noteq> Some (nid node)"
  shows "fst (astNodeToJsx E localComponentRegistry templateNodeForCurrentDefinition
                isComponentDefinitionBody componentPropsSpec nodePath node)
         = callSite compInfo (fst (instanceProps E node (cPropsSpec compInfo) []))
             (if map_of (cPropsSpec compInfo) ''children'' \<noteq> None
              then fst (renderNodes E localComponentRegistry templateNodeForCurrentDefinition
                          False [] (\<lambda>i. []) 0 (children node))
              else []) \<and>
         (\<exists>propsString childrenJsx.
            fst (astNodeToJsx E localComponentRegistry templateNodeForCurrentDefinition
                   isComponentDefinitionBody componentPropsSpec nodePath node)
              = ''<'' @ cname compInfo @ propsString @ '' />'' \<or>
            fst (astNodeToJsx E localComponentRegistry templateNodeForCurrentDefinition
                   isComponentDefinitionBody componentPropsSpec nodePath node)
              = ''<'' @ cname compInfo @ propsString @ ''>'' @ childrenJsx @
                ''</'' @ cname compInfo @ ''>'')"
proof -
  obtain n t nm as cs d where node: "node = Node n t nm as cs d" by (cases node)
  from assms node have sc: "(if templateNodeForCurrentDefinition = Some n then None
      else localComponentRegistry n) = Some compInfo" by auto
  have eq: "fst (astNodeToJsx E localComponentRegistry templateNodeForCurrentDefinition
                isComponentDefinitionBody componentPropsSpec nodePath node)
         = callSite compInfo (fst (instanceProps E node (cPropsSpec compInfo) []))
             (if map_of (cPropsSpec compInfo) ''children'' \<noteq> None
              then fst (renderNodes E localComponentRegistry templateNodeForCurrentDefinition
                          False [] (\<lambda>i. []) 0 (children node))
              else [])"
    unfolding node
      astNodeToJsx_callsite[where reg = localComponentRegistry and n = n
        and tmpl = templateNodeForCurrentDefinition, OF sc]
    by simp
  have form: "\<exists>propsString childrenJsx.
      callSite compInfo props kids = ''<'' @ cname compInfo @ propsString @ '' />'' \<or>
      callSite compInfo props kids = ''<'' @ cname compInfo @ propsString @ ''>'' @ childrenJsx @
                ''</'' @ cname compInfo @ ''>''" for props kids
    unfolding callSite_def Let_def by (cases "trim kids \<noteq> []") auto
  from eq form show ?thesis by (simp only:)
qed

text \<open>A registered card on the page becomes \<^verbatim>\<open><CardItem />\<close>.\<close>

theorem registered_node_renders_reference_witness:
  "[2 \<mapsto> \<lparr>cname = ''CardItem'', cAstNode = 2, cPropsSpec = []\<rparr>] (nid (el 2 ''div'' [] [tx 3 ''x'']))
     = Some \<lparr>cname = ''CardItem'', cAstNode = 2, cPropsSpec = []\<rparr> \<and>
   (None :: nat option) \<noteq> Some (nid (el 2 ''div'' [] [tx 3 ''x''])) \<and>
   fst (astNodeToJsx exampleEnv [2 \<mapsto> \<lparr>cname = ''CardItem'', cAstNode = 2, cPropsSpec = []\<rparr>]
          None False [] [] (el 2 ''div'' [] [tx 3 ''x''])) = ''<CardItem />''"
proof -
  let ?ci = "\<lparr>cname = ''CardItem'', cAstNode = 2, cPropsSpec = []\<rparr>"
  let ?n = "el 2 ''div'' [] [tx 3 ''x'']"
  have a: "[2 \<mapsto> ?ci] (nid ?n) = Some ?ci" by (simp add: el_def)
  have b: "(None :: nat option) \<noteq> Some (nid ?n)" by simp
  have c: "callSite ?ci (fst (instanceProps exampleEnv ?n (cPropsSpec ?ci) []))
             (if map_of (cPropsSpec ?ci) ''children'' \<noteq> None
              then fst (renderNodes exampleEnv [2 \<mapsto> ?ci] None False [] (\<lambda>i. []) 0 (children ?n))
              else []) = ''<CardItem />''"
    by (simp add: callSite_def trim_def)
  from registered_node_renders_reference[where localComponentRegistry = "[2 \<mapsto> ?ci]"
      and node = ?n and compInfo = ?ci and templateNodeForCurrentDefinition = None
      and E = exampleEnv and isComponentDefinitionBody = False and componentPropsSpec = "[]"
      and nodePath = "[]", OF a b] c
  have "fst (astNodeToJsx exampleEnv [2 \<mapsto> ?ci] None False [] [] ?n) = ''<CardItem />''"
    by (simp only:)
  with a b show ?thesis by (intro conjI)
qed

text \<open>
  C5 as stated fails.  Two \<^verbatim>\<open>container\<close> elements of one shape are each a
  layout candidate and together a repetition candidate, all three of the same
  size.  The loop registers node 1 under \<open>ContainerLayout\<close> with the first
  candidate; the third candidate has node 1 as its template, and its
  definition body is the markup of node 1 again, not a reference.
\<close>

theorem registered_template_inlined_counterexample:
  "map_option (\<lambda>(defs, reg, G, effs).
       map (\<lambda>d. (defName d, nid (astNode (defCandidate d)), map nid (instances (defCandidate d)),
                  take 4 (jsxBody d))) defs)
     (identifyComponents exampleEnv containerBody Map.empty emptyGlobalState)
   = Some [(''ContainerLayout'', 1, [1], ''<div''),
           (''ContainerLayout_3c646976'', 4, [4], ''<div''),
           (''ContainerItem'', 1, [1, 4], ''<div'')]"
  by code_simp

declare astNodeToJsx.simps [simp del]

lemma render_writes_node:
  "list_all (iconWrite E) (snd (astNodeToJsx E reg tmpl isDef spec nodePath node))"
proof (induction node arbitrary: isDef spec nodePath)
  case (Node n t nm as cs d)
  have kids: "list_all (iconWrite E) (snd (renderNodes E reg tmpl isDef' spec' pathOf i cs'))"
    if "set cs' \<subseteq> set cs" for isDef' spec' pathOf i cs'
    using that by (induction cs' arbitrary: i) (auto simp: case_prod_beta Node.IH)
  show ?case
  proof (cases "(if tmpl = Some n then None else reg n)")
    case (Some ci)
    show ?thesis
      unfolding astNodeToJsx_callsite[where reg = reg and n = n and tmpl = tmpl, OF Some]
      using kids[of cs] by (simp add: instanceProps_writes)
  next
    case None
    show ?thesis
    proof (cases "t = ''tag''")
      case False
      from astNodeToJsx_other[where reg = reg and n = n and tmpl = tmpl, OF None False, of E isDef spec nodePath nm as cs d]
      show ?thesis by auto
    next
      case True
      let ?node' = "if nm = ''svg'' then normalizeViewBox (Node n ''tag'' nm as cs d) else Node n ''tag'' nm as cs d"
      show ?thesis
      proof (cases "renderSvg E isDef spec nodePath ?node'")
        case (Some r)
        then have "list_all (iconWrite E) (snd r)"
          using renderSvg_writes[of E isDef spec nodePath ?node' "fst r" "snd r"] by simp
        with Some show ?thesis
          unfolding True astNodeToJsx_tag[where reg = reg and n = n and tmpl = tmpl, OF None] by (simp add: Let_def)
      next
        case rs: None
        with kids[of cs] show ?thesis
          unfolding True astNodeToJsx_tag[where reg = reg and n = n and tmpl = tmpl, OF None] by (simp add: Let_def)
      qed
    qed
  qed
qed

lemma render_writes_nodes:
  "list_all (iconWrite E) (snd (renderNodes E reg tmpl isDef spec pathOf i nodes))"
  by (induction nodes arbitrary: i) (auto simp: case_prod_beta render_writes_node)




section \<open>Properties of the pattern detector\<close>

lemma eligible_unregistered:
  "localComponentRegistry (nid node) = None \<Longrightarrow>
   isNodeEligibleForComponentization node localComponentRegistry = isNodeEligible_noguard node"
  by (simp add: isNodeEligibleForComponentization_def isNodeEligible_noguard_def
        isNodeAlreadyComponentPart_def)

lemma findRepetitive_noguard_eq:
  "\<forall>m \<in> set (findNodes (\<lambda>x. True) node). reg (nid m) = None \<Longrightarrow>
   findRepetitive E reg node currentPath st = findRepetitive_noguard E node currentPath st"
proof (induction node arbitrary: currentPath st)
  case (Node n t nm as cs d)
  have self: "reg n = None" using Node.prems by simp
  have sub: "\<forall>m \<in> set (findNodes (\<lambda>x. True) c). reg (nid m) = None" if "c \<in> set cs" for c
    using Node.prems that by auto
  have svg: "reg (nid c) = None" if "c \<in> set cs" for c
    using sub[OF that] by (cases c) auto
  have kids: "findRepetitiveChildren E reg cs' i currentPath st'
              = findRepetitiveChildren_noguard E cs' i currentPath st'"
    if "set cs' \<subseteq> set cs" for cs' i st'
    using that
  proof (induction cs' arbitrary: i st')
    case Nil
    show ?case by simp
  next
    case (Cons c cs')
    then have c: "c \<in> set cs" by simp
    from Cons have "findRepetitiveChildren E reg cs' (Suc i) currentPath s
       = findRepetitiveChildren_noguard E cs' (Suc i) currentPath s" for s by simp
    with Node.IH[OF c sub[OF c]] show ?case by simp
  qed
  show ?case
    using kids[of cs] self
    by (simp add: eligible_unregistered Let_def)
qed

text \<open>
  C7.  \<^verbatim>\<open>processSingleAst\<close> calls \<^verbatim>\<open>identifyComponents\<close> with a
  registry it has just created.  On that registry the already-claimed guard of
  \<^verbatim>\<open>isNodeEligibleForComponentization\<close> excludes no node, and the
  candidate list of the tree is the one the detector without the guard gives.
  (By \<open>findRepetitive_noguard_eq\<close> the same holds for every registry that
  holds no node of the tree.)
\<close>

theorem guard_is_noop_on_fresh_registry:
  "isNodeEligibleForComponentization node Map.empty = isNodeEligible_noguard node \<and>
   componentCandidates E Map.empty bodyNode = componentCandidates_noguard E Map.empty bodyNode"
  by (simp add: componentCandidates_def componentCandidates_noguard_def repetitionCandidates_def
        findRepetitive_noguard_eq eligible_unregistered)

section \<open>The registry of one tree\<close>

lemma registerInstances_apply:
  "registerInstances cand finalName reg k =
     (if k \<in> nid ` set (instances cand)
      then Some \<lparr>cname = finalName, cAstNode = nid (astNode cand), cPropsSpec = candPropsSpec cand\<rparr>
      else reg k)"
proof -
  have "fold (\<lambda>instanceNode r. r(nid instanceNode \<mapsto> ci)) xs reg k =
        (if k \<in> nid ` set xs then Some ci else reg k)" for xs ci
    by (induction xs arbitrary: reg) auto
  then show ?thesis by (simp add: registerInstances_def)
qed

lemma processCandidates_keeps:
  "reg k \<noteq> None \<Longrightarrow> fst (snd (processCandidates E cands reg G defs effs)) k \<noteq> None"
  by (induction cands arbitrary: reg G defs effs)
     (auto simp: Let_def case_prod_beta registerInstances_apply)

lemma processCandidates_registers:
  "c \<in> set cands \<Longrightarrow> i \<in> set (instances c) \<Longrightarrow>
   fst (snd (processCandidates E cands reg G defs effs)) (nid i) \<noteq> None"
proof (induction cands arbitrary: reg G defs effs)
  case Nil
  then show ?case by simp
next
  case (Cons a cands)
  show ?case
  proof (cases "c = a")
    case True
    with Cons.prems(2) show ?thesis
      by (simp add: Let_def case_prod_beta processCandidates_keeps registerInstances_apply)
  next
    case False
    with Cons.prems have "c \<in> set cands" by simp
    from Cons.IH[OF this Cons.prems(2)] show ?thesis
      by (simp add: Let_def case_prod_beta)
  qed
qed

lemma findNodes_sat: "x \<in> set (findNodes P node) \<Longrightarrow> P x"
  by (induction node) auto

lemma layoutCandidates_tags:
  "c \<in> set (layoutCandidates E reg bodyNode) \<Longrightarrow> i \<in> set (instances c) \<Longrightarrow> ntype i = ''tag''"
  by (auto simp: layoutCandidates_def isLayoutMatch_def dest!: findNodes_sat)

lemma set_update_subset: "set (AList.update k v al) \<subseteq> insert (k, v) (set al)"
  by (induction al) auto

lemma groupedNodes_addSignature:
  "groupedNodes (addSignature sig (n, p) st) \<subseteq> insert n (groupedNodes st)"
proof
  fix x assume "x \<in> groupedNodes (addSignature sig (n, p) st)"
  then obtain s es q where m: "(s, es) \<in> set (signatures (addSignature sig (n, p) st))"
    and x: "(x, q) \<in> set es" by (auto simp: groupedNodes_def)
  show "x \<in> insert n (groupedNodes st)"
  proof (cases "map_of (signatures st) sig")
    case None
    with m have "(s, es) \<in> insert (sig, [(n, p)]) (set (signatures st))"
      using set_update_subset[of sig "[(n, p)]" "signatures st"] by (auto simp: addSignature_def)
    with x show ?thesis by (auto simp: groupedNodes_def)
  next
    case (Some old)
    then have o: "(sig, old) \<in> set (signatures st)" by (rule map_of_SomeD)
    from Some m have "(s, es) \<in> insert (sig, old @ [(n, p)]) (set (signatures st))"
      using set_update_subset[of sig "old @ [(n, p)]" "signatures st"] by (auto simp: addSignature_def)
    with x o show ?thesis by (auto simp: groupedNodes_def)
  qed
qed

lemma groupedNodes_markProcessed [simp]: "groupedNodes (markProcessed node st) = groupedNodes st"
  by (simp add: groupedNodes_def markProcessed_def)

lemma findRepetitive_tags:
  "\<forall>x \<in> groupedNodes st. ntype x = ''tag'' \<Longrightarrow>
   \<forall>x \<in> groupedNodes (findRepetitive E reg node currentPath st). ntype x = ''tag''"
  "\<forall>x \<in> groupedNodes st. ntype x = ''tag'' \<Longrightarrow>
   \<forall>x \<in> groupedNodes (findRepetitiveChildren E reg cs i currentPath st). ntype x = ''tag''"
proof (induction E reg node currentPath st and E reg cs i currentPath st
        rule: findRepetitive_findRepetitiveChildren.induct)
  case (1 E reg n t nm as cs d currentPath st)
  let ?node = "Node n t nm as cs d"
  let ?st1 = "if isNodeEligibleForComponentization ?node reg \<and> minChildrenForRepetition E \<le> length cs
              then addSignature (getStructuralSignature ?node) (?node, currentPath) st else st"
  show ?case
  proof (cases "n \<in> set (processedForRepetition st)")
    case True
    with "1.prems" show ?thesis by simp
  next
    case False
    have "\<forall>x \<in> groupedNodes ?st1. ntype x = ''tag''"
      using "1.prems" groupedNodes_addSignature[of "getStructuralSignature ?node" ?node currentPath st]
      by (auto simp: isNodeEligibleForComponentization_def split: if_splits)
    from "1.IH"[OF False refl this]
    have kids: "\<forall>x \<in> groupedNodes (findRepetitiveChildren E reg cs 0 currentPath ?st1).
              ntype x = ''tag''" .
    have eq: "findRepetitive E reg ?node currentPath st
              = markProcessed ?node (findRepetitiveChildren E reg cs 0 currentPath ?st1)"
      using False by (simp add: Let_def)
    show ?thesis unfolding eq groupedNodes_markProcessed by (rule kids)
  qed
next
  case (2 E reg i currentPath st)
  then show ?case by simp
next
  case (3 E reg child rest i currentPath st)
  let ?st' = "if ntype child = ''tag'' \<and> nname child = ''svg'' then markProcessed child st
              else findRepetitive E reg child (currentPath @ [SKey ''children'', SIdx i]) st"
  have "\<forall>x \<in> groupedNodes ?st'. ntype x = ''tag''"
  proof (cases "ntype child = ''tag'' \<and> nname child = ''svg''")
    case True
    then have "groupedNodes ?st' = groupedNodes st" by simp
    then show ?thesis using "3.prems" by (simp only:)
  next
    case False
    from "3.IH"(1)[OF False "3.prems"] False show ?thesis by (simp only: if_False)
  qed
  from "3.IH"(2)[OF this] show ?case by (simp only: findRepetitiveChildren.simps)
qed

lemma groupCandidates_tags:
  "groupCandidates E reg groups = Some cands \<Longrightarrow>
   \<forall>(sig, entries) \<in> set groups. \<forall>(n, p) \<in> set entries. ntype n = ''tag'' \<Longrightarrow>
   c \<in> set cands \<Longrightarrow> i \<in> set (instances c) \<Longrightarrow> ntype i = ''tag''"
proof (induction groups arbitrary: cands)
  case Nil
  then show ?case by simp
next
  case (Cons g groups)
  obtain sig entries where g: "g = (sig, entries)" by (cases g)
  from Cons.prems(2) g have here: "\<forall>(n, p) \<in> set entries. ntype n = ''tag''"
    and there: "\<forall>(sig, entries) \<in> set groups. \<forall>(n, p) \<in> set entries. ntype n = ''tag''"
    by auto
  from Cons.prems(1) g consider
    (skip) "groupCandidates E reg groups = Some cands"
    | (take) cand rest where "cands = cand # rest" "groupCandidates E reg groups = Some rest"
        "instances cand = map fst entries"
    by (auto simp: Let_def split: if_splits option.splits)
  then show ?case
  proof cases
    case skip
    from Cons.IH[OF skip there Cons.prems(3,4)] show ?thesis .
  next
    case take
    show ?thesis
    proof (cases "c = cand")
      case True
      with take(3) Cons.prems(4) here show ?thesis by auto
    next
      case False
      with take(1) Cons.prems(3) have "c \<in> set rest" by simp
      from Cons.IH[OF take(2) there this Cons.prems(4)] show ?thesis .
    qed
  qed
qed

lemma componentCandidates_tags:
  assumes "componentCandidates E reg bodyNode = Some cands" "c \<in> set cands" "i \<in> set (instances c)"
  shows "ntype i = ''tag''"
proof -
  let ?st = "findRepetitive E reg bodyNode [] emptyRepState"
  from assms(1) obtain reps where reps: "groupCandidates E reg (signatures ?st) = Some reps"
    and cands: "cands = layoutCandidates E reg bodyNode @ reps"
    by (auto simp: componentCandidates_def repetitionCandidates_def)
  have "\<forall>x \<in> groupedNodes emptyRepState. ntype x = ''tag''"
    by (simp add: groupedNodes_def emptyRepState_def)
  from findRepetitive_tags(1)[OF this] have
    "\<forall>(sig, entries) \<in> set (signatures ?st). \<forall>(n, p) \<in> set entries. ntype n = ''tag''"
    by (fastforce simp: groupedNodes_def)
  from groupCandidates_tags[OF reps this] layoutCandidates_tags assms(2,3) cands
  show ?thesis by auto
qed

lemma processCandidates_registry:
  "fst (snd (processCandidates E cands reg G defs effs)) k \<noteq> None \<Longrightarrow>
   reg k \<noteq> None \<or> (\<exists>c \<in> set cands. k \<in> nid ` set (instances c))"
proof (induction cands arbitrary: reg G defs effs)
  case Nil
  then show ?case by simp
next
  case (Cons a cands)
  from Cons.prems obtain nm G' defs' effs' where
    "fst (snd (processCandidates E cands (registerInstances a nm reg) G' defs' effs')) k \<noteq> None"
    by (simp add: Let_def case_prod_beta)
  from Cons.IH[OF this] show ?case
    by (auto simp: registerInstances_apply split: if_splits)
qed

text \<open>After \<^verbatim>\<open>identifyComponents\<close> on a fresh registry, the registry holds
  only identities of tag elements that are instances of candidates.\<close>

lemma registry_only_tags:
  assumes "identifyComponents E bodyNode Map.empty G = Some (defs, reg, G', effs)"
    and "reg k \<noteq> None"
  shows "\<exists>cands c i. componentCandidates E Map.empty bodyNode = Some cands \<and> c \<in> set cands \<and>
           i \<in> set (instances c) \<and> nid i = k \<and> ntype i = ''tag''"
proof -
  from assms(1) obtain cands where cands: "componentCandidates E Map.empty bodyNode = Some cands"
    and run: "processCandidates E (sort_key (\<lambda>c. countNodes (astNode c)) cands) Map.empty G [] []
               = (defs, reg, G', effs)"
    by (auto simp: identifyComponents_def)
  from run assms(2) have "fst (snd (processCandidates E (sort_key (\<lambda>c. countNodes (astNode c)) cands)
      Map.empty G [] [])) k \<noteq> None" by simp
  from processCandidates_registry[OF this] obtain c i where
    ci: "c \<in> set cands" "i \<in> set (instances c)" "nid i = k" by auto
  from componentCandidates_tags[OF cands ci(1,2)] cands ci show ?thesis by blast
qed

section \<open>Round trip of call-site props\<close>

lemma walk_append: "walk x (a @ b) = walk (walk x a) b"
  by (simp add: walk_def)

lemma walk_Nil [simp]: "walk x [] = x"
  by (simp add: walk_def)








section \<open>Properties of naming\<close>

text \<open>
  C2 fails on the code.  The fingerprints below are the MD5 digests that
  \<^verbatim>\<open>generateComponentFingerprint\<close> computes for three prop-less component
  bodies, \<^verbatim>\<open><div className={"card"}><h3>N</h3><p>x</p></div>\<close> with \<open>N\<close>
  0, 4474 and 7261; the last two share their first eight digits.  Resolved in
  this order under the tentative name \<open>CardItem\<close>, the second and the
  third component, of different fingerprints, get the same final name: the
  suffixed name is never entered in the name table, so nothing notices.
\<close>

theorem shared_prefix_same_name:
  "resolveAll E emptyGlobalState
     [(''7adafc0163cab517a03851c3dbd0efdc'', ''CardItem''),
      (''e5d477ca3ff9a0e5b1d31d18452dc616'', ''CardItem''),
      (''e5d477ca189b6431e45ec62d2478a89e'', ''CardItem'')]
   = [''CardItem'', ''CardItem_e5d477ca'', ''CardItem_e5d477ca''] \<and>
   ''e5d477ca3ff9a0e5b1d31d18452dc616'' \<noteq> ''e5d477ca189b6431e45ec62d2478a89e''"
  by (simp add: resolveName_def recordComponent_def emptyGlobalState_def Let_def)

end
